theory Spec2Isabelle
  imports Complex_Main "HOL-Library.AList" "HOL-Library.Multiset" "HOL-Library.Log_Nat"
begin

section \<open>Python values, dictionaries and exceptions\<close>

text \<open>
  The records of the three stores are Python dictionaries with string keys. The values
  that the forms of \<^verbatim>\<open>AMS-APP.py\<close> put into them are strings (text inputs, select boxes,
  generated identifiers), \<^verbatim>\<open>None\<close> (no uploaded file), raw bytes (the uploaded file) and
  \<^verbatim>\<open>datetime.date\<close> objects (date inputs). A date is represented by its proleptic ordinal
  (\<^verbatim>\<open>date.toordinal()\<close>), so that the order of dates is the order of integers.
  The characters of a string are code points below 256; integers are unbounded, as
  Python's are. CPython limits the number of digits in a conversion between \<^verbatim>\<open>int\<close> and
  \<^verbatim>\<open>str\<close>: the limit (\<^verbatim>\<open>sys.get_int_max_str_digits()\<close>, 4300 unless the interpreter is
  started otherwise, 0 for no limit) is the parameter \<open>max_str_digits\<close> of the functions
  that convert.

  A dictionary is an association list with distinct keys in insertion order, which is
  the order a Python \<^verbatim>\<open>dict\<close> keeps.
\<close>

datatype pyval = PyNone | PyStr string | PyBytes string | PyDate int

datatype exn = KeyError | TypeError | ValueError | IndexError

type_synonym pydict = "(string \<times> pyval) list"

text \<open>\<^verbatim>\<open>d[k]\<close>: raises \<^verbatim>\<open>KeyError\<close> when the key is missing.\<close>

definition getitem :: "pydict \<Rightarrow> string \<Rightarrow> exn + pyval" where
  "getitem d k = (case map_of d k of None \<Rightarrow> Inl KeyError | Some v \<Rightarrow> Inr v)"

text \<open>\<^verbatim>\<open>d[k] = v\<close>: overwrites in place, or appends a new key at the end.\<close>

definition setitem :: "pydict \<Rightarrow> string \<Rightarrow> pyval \<Rightarrow> pydict" where
  "setitem d k v = AList.update k v d"

text \<open>Sequencing of computations that may raise.\<close>

definition and_then :: "exn + 'a \<Rightarrow> ('a \<Rightarrow> exn + 'b) \<Rightarrow> exn + 'b" where
  "and_then m f = (case m of Inl e \<Rightarrow> Inl e | Inr x \<Rightarrow> f x)"

text \<open>\<^verbatim>\<open>v[n:]\<close> for a non-negative \<open>n\<close>: defined on strings and bytes only.\<close>

fun slice_from :: "pyval \<Rightarrow> nat \<Rightarrow> exn + pyval" where
  "slice_from (PyStr s) n = Inr (PyStr (drop n s))"
| "slice_from (PyBytes s) n = Inr (PyBytes (drop n s))"
| "slice_from PyNone n = Inl TypeError"
| "slice_from (PyDate d) n = Inl TypeError"

text \<open>Truthiness, as used by \<^verbatim>\<open>if a and b and c\<close> in the submit handlers.\<close>

fun truthy :: "pyval \<Rightarrow> bool" where
  "truthy PyNone = False"
| "truthy (PyStr s) = (s \<noteq> [])"
| "truthy (PyBytes s) = (s \<noteq> [])"
| "truthy (PyDate d) = True"

section \<open>The library functions \<^verbatim>\<open>int\<close>, \<^verbatim>\<open>str\<close>, \<^verbatim>\<open>zfill\<close> and \<^verbatim>\<open>max\<close>\<close>

text \<open>
  Whitespace that \<^verbatim>\<open>int\<close> skips around a literal: in bytes the six ASCII whitespace
  characters; in a string also the two other whitespace code points below 256.
\<close>

definition is_space :: "char \<Rightarrow> bool" where
  "is_space c = (c \<in> set [CHR 0x09, CHR 0x0A, CHR 0x0B, CHR 0x0C, CHR 0x0D, CHR 0x20])"

definition is_space_unicode :: "char \<Rightarrow> bool" where
  "is_space_unicode c = (is_space c \<or> c = CHR 0x85 \<or> c = CHR 0xA0)"

text \<open>
  The limit on conversions: a number of digits is accepted when there is no limit, or
  it is at most the limit. A limit that is set is at least 640
  (\<^verbatim>\<open>sys.set_int_max_str_digits\<close> refuses a smaller one), and up to 640 digits the
  interpreter does not look at the limit.
\<close>

definition within_limit :: "nat \<Rightarrow> nat \<Rightarrow> bool" where
  "within_limit max_str_digits digits = (max_str_digits = 0 \<or> digits \<le> max max_str_digits 640)"

definition is_digit :: "char \<Rightarrow> bool" where
  "is_digit c = (48 \<le> (of_char c :: nat) \<and> (of_char c :: nat) \<le> 57)"

definition digit_val :: "char \<Rightarrow> nat" where
  "digit_val c = of_char c - 48"

definition digit_char :: "nat \<Rightarrow> char" where
  "digit_char d = char_of (48 + d)"

text \<open>
  The digits of a base-10 literal after its first digit: digits, where a single
  underscore may stand between two digits.
\<close>

fun parse_digits :: "nat \<Rightarrow> string \<Rightarrow> nat option" where
  "parse_digits acc [] = Some acc"
| "parse_digits acc [c] = (if is_digit c then Some (10 * acc + digit_val c) else None)"
| "parse_digits acc (c # d # cs) =
     (if is_digit c then parse_digits (10 * acc + digit_val c) (d # cs)
      else if c = CHR ''_'' \<and> is_digit d then parse_digits (10 * acc + digit_val d) cs
      else None)"

definition parse_unsigned :: "string \<Rightarrow> nat option" where
  "parse_unsigned s =
     (case s of [] \<Rightarrow> None
      | c # cs \<Rightarrow> if is_digit c then parse_digits (digit_val c) cs else None)"

definition strip :: "(char \<Rightarrow> bool) \<Rightarrow> string \<Rightarrow> string" where
  "strip space s = rev (dropWhile space (rev (dropWhile space s)))"

text \<open>
  \<^verbatim>\<open>int(s)\<close> for a string or bytes literal in base 10: surrounding whitespace, an
  optional sign, then the digits, of which there may be no more than the limit allows
  (underscores do not count, leading zeros do). Anything else is a \<^verbatim>\<open>ValueError\<close>.
\<close>

definition int_of_literal :: "(char \<Rightarrow> bool) \<Rightarrow> nat \<Rightarrow> string \<Rightarrow> exn + int" where
  "int_of_literal space max_str_digits s =
     (case strip space s of
        [] \<Rightarrow> Inl ValueError
      | c # cs \<Rightarrow>
          let body = (if c = CHR ''-'' \<or> c = CHR ''+'' then cs else c # cs)
          in (case parse_unsigned body of
                None \<Rightarrow> Inl ValueError
              | Some n \<Rightarrow>
                  if within_limit max_str_digits (length (filter is_digit body))
                  then Inr (if c = CHR ''-'' then - int n else int n)
                  else Inl ValueError))"

fun py_int :: "nat \<Rightarrow> pyval \<Rightarrow> exn + int" where
  "py_int max_str_digits (PyStr s) = int_of_literal is_space_unicode max_str_digits s"
| "py_int max_str_digits (PyBytes s) = int_of_literal is_space max_str_digits s"
| "py_int max_str_digits PyNone = Inl TypeError"
| "py_int max_str_digits (PyDate d) = Inl TypeError"

text \<open>
  \<^verbatim>\<open>str(n)\<close> for an integer: its decimal digits, after a minus sign when negative;
  a \<^verbatim>\<open>ValueError\<close> when there are more digits than the limit allows.
\<close>

fun dec_str :: "nat \<Rightarrow> string" where
  "dec_str n = (if n < 10 then [digit_char n] else dec_str (n div 10) @ [digit_char (n mod 10)])"

declare dec_str.simps [simp del]

definition py_str :: "nat \<Rightarrow> int \<Rightarrow> exn + string" where
  "py_str max_str_digits n =
     (let digits = dec_str (nat \<bar>n\<bar>)
      in if within_limit max_str_digits (length digits)
         then Inr (if n < 0 then CHR ''-'' # digits else digits)
         else Inl ValueError)"

text \<open>\<^verbatim>\<open>s.zfill(width)\<close>: zeros are inserted after a leading sign.\<close>

definition zfill :: "nat \<Rightarrow> string \<Rightarrow> string" where
  "zfill width s =
     (if width \<le> length s then s
      else (case s of
              [] \<Rightarrow> replicate width CHR ''0''
            | c # cs \<Rightarrow>
                if c = CHR ''+'' \<or> c = CHR ''-''
                then c # replicate (width - length s) CHR ''0'' @ cs
                else replicate (width - length s) CHR ''0'' @ s))"

text \<open>\<^verbatim>\<open>max(xs)\<close> of a list of integers: \<^verbatim>\<open>ValueError\<close> on the empty list.\<close>

definition py_max :: "int list \<Rightarrow> exn + int" where
  "py_max xs = (case xs of [] \<Rightarrow> Inl ValueError | y # ys \<Rightarrow> Inr (fold max ys y))"

section \<open>The identifier generator\<close>

text \<open>
  The list comprehension \<^verbatim>\<open>[int(item['ID'][len(prefix):]) for item in current_list]\<close>,
  evaluated from left to right; the first exception ends it.
\<close>

fun id_numbers :: "nat \<Rightarrow> string \<Rightarrow> pydict list \<Rightarrow> exn + int list" where
  "id_numbers max_str_digits prefix [] = Inr []"
| "id_numbers max_str_digits prefix (item # items) =
     and_then (getitem item ''ID'') (\<lambda>v.
     and_then (slice_from v (length prefix)) (\<lambda>t.
     and_then (py_int max_str_digits t) (\<lambda>n.
     and_then (id_numbers max_str_digits prefix items) (\<lambda>ns. Inr (n # ns)))))"

definition generate_id :: "nat \<Rightarrow> string \<Rightarrow> pydict list \<Rightarrow> exn + string" where
  "generate_id max_str_digits prefix current_list =
     (if current_list = [] then Inr (prefix @ ''001'')
      else and_then (id_numbers max_str_digits prefix current_list) (\<lambda>ns.
           and_then (py_max ns) (\<lambda>last_id.
           and_then (py_str max_str_digits (last_id + 1)) (\<lambda>digits.
           Inr (prefix @ zfill 3 digits)))))"

section \<open>Session state and user-interface output\<close>

text \<open>
  \<^verbatim>\<open>st.session_state\<close> holds the three stores; each is a list of records in creation
  order. Every store is empty when the session starts.
\<close>

record session_state =
  audit_engagements :: "pydict list"
  audit_findings :: "pydict list"
  corrective_actions :: "pydict list"

definition initial_state :: session_state where
  "initial_state = \<lparr>audit_engagements = [], audit_findings = [], corrective_actions = []\<rparr>"

text \<open>
  What an operation shows to the user. An f-string is kept as the list of its parts, the
  interpolated values unformatted, so that the message still tells which values it reports.
\<close>

datatype fpart = Lit string | Val pyval

datatype ui_msg = Success "fpart list" | Error string | Warning string | Info string

text \<open>
  The outcome of an operation that did not raise: the value it returns to its caller
  (\<open>PyNone\<close> for a function without \<^verbatim>\<open>return\<close> and for script-level handlers), the
  messages it shows, and the session state it leaves. An operation that raises has not
  changed any store: the only exceptions come from reading, before the single mutation.
\<close>

record outcome =
  returned :: pyval
  shown :: "ui_msg list"
  state :: session_state

section \<open>Record creation\<close>

definition add_audit_engagement ::
  "nat \<Rightarrow> pyval \<Rightarrow> pyval \<Rightarrow> pyval \<Rightarrow> pyval \<Rightarrow> pyval \<Rightarrow> pyval \<Rightarrow> pyval \<Rightarrow> pyval \<Rightarrow> pyval \<Rightarrow>
   session_state \<Rightarrow> exn + outcome" where
  "add_audit_engagement max_str_digits title department audit_type auditors auditees start_date
       end_date audit_report_name audit_report_data s =
     and_then (generate_id max_str_digits ''AE'' (audit_engagements s)) (\<lambda>engagement_id.
       Inr \<lparr>returned = PyNone,
            shown = [Success [Lit (''Audit Engagement '' @ [CHR 0x27]), Val title,
                              Lit (CHR 0x27 # '' created with ID: ''), Val (PyStr engagement_id)]],
            state = s\<lparr>audit_engagements := audit_engagements s @
              [[(''ID'', PyStr engagement_id),
                (''Title'', title),
                (''Department'', department),
                (''Audit Type'', audit_type),
                (''Auditor(s)'', auditors),
                (''Auditee(s)'', auditees),
                (''Start Date'', start_date),
                (''End Date'', end_date),
                (''Status'', PyStr ''Draft''),
                (''Audit Report Name'', audit_report_name),
                (''Audit Report Data'', audit_report_data)]]\<rparr>\<rparr>)"

definition add_audit_finding ::
  "nat \<Rightarrow> pyval \<Rightarrow> pyval \<Rightarrow> pyval \<Rightarrow> pyval \<Rightarrow> pyval \<Rightarrow> pyval \<Rightarrow> pyval \<Rightarrow> pyval \<Rightarrow>
   session_state \<Rightarrow> exn + outcome" where
  "add_audit_finding max_str_digits audit_engagement_id category description risk_level
       root_cause recommendation evidence_name evidence_data s =
     and_then (generate_id max_str_digits ''F'' (audit_findings s)) (\<lambda>finding_id.
       Inr \<lparr>returned = PyStr finding_id,
            shown = [Success [Lit (''Audit Finding '' @ [CHR 0x27]), Val (PyStr finding_id),
                              Lit (CHR 0x27 # '' added to Engagement ''), Val audit_engagement_id]],
            state = s\<lparr>audit_findings := audit_findings s @
              [[(''ID'', PyStr finding_id),
                (''Audit Engagement ID'', audit_engagement_id),
                (''Category'', category),
                (''Description'', description),
                (''Evidence Name'', evidence_name),
                (''Evidence Data'', evidence_data),
                (''Risk Level'', risk_level),
                (''Root Cause'', root_cause),
                (''Recommendation'', recommendation),
                (''Status'', PyStr ''Open'')]]\<rparr>\<rparr>)"

definition add_corrective_action ::
  "nat \<Rightarrow> pyval \<Rightarrow> pyval \<Rightarrow> pyval \<Rightarrow> pyval \<Rightarrow> pyval \<Rightarrow> pyval \<Rightarrow> session_state \<Rightarrow>
   exn + outcome" where
  "add_corrective_action max_str_digits finding_id responsible_person action_description
       due_date follow_up_evidence_name follow_up_evidence_data s =
     and_then (generate_id max_str_digits ''CA'' (corrective_actions s)) (\<lambda>action_id.
       Inr \<lparr>returned = PyNone,
            shown = [Success [Lit (''Corrective Action '' @ [CHR 0x27]), Val (PyStr action_id),
                              Lit (CHR 0x27 # '' added for Finding ''), Val finding_id]],
            state = s\<lparr>corrective_actions := corrective_actions s @
              [[(''ID'', PyStr action_id),
                (''Finding ID'', finding_id),
                (''Responsible Person'', responsible_person),
                (''Action Description'', action_description),
                (''Due Date'', due_date),
                (''Status'', PyStr ''Pending''),
                (''Follow-Up Evidence Name'', follow_up_evidence_name),
                (''Follow-Up Evidence Data'', follow_up_evidence_data)]]\<rparr>\<rparr>)"

section \<open>The submit handlers of the three forms\<close>

text \<open>
  An uploaded file is \<^verbatim>\<open>None\<close> or an object with a name and its bytes; the handlers
  take \<^verbatim>\<open>file.name if file else None\<close> and \<^verbatim>\<open>file.getvalue() if file else None\<close>.
\<close>

definition file_name :: "(string \<times> string) option \<Rightarrow> pyval" where
  "file_name f = (case f of None \<Rightarrow> PyNone | Some (name, data) \<Rightarrow> PyStr name)"

definition file_data :: "(string \<times> string) option \<Rightarrow> pyval" where
  "file_data f = (case f of None \<Rightarrow> PyNone | Some (name, data) \<Rightarrow> PyBytes data)"

definition submit_audit_engagement_form ::
  "nat \<Rightarrow> pyval \<Rightarrow> pyval \<Rightarrow> pyval \<Rightarrow> pyval \<Rightarrow> pyval \<Rightarrow> pyval \<Rightarrow> pyval \<Rightarrow>
   (string \<times> string) option \<Rightarrow> session_state \<Rightarrow> exn + outcome" where
  "submit_audit_engagement_form max_str_digits ae_title ae_department ae_audit_type ae_auditors
       ae_auditees ae_start_date ae_end_date ae_report_file s =
     (let report_name = file_name ae_report_file;
          report_data = file_data ae_report_file
      in if truthy ae_title \<and> truthy ae_department \<and> truthy ae_auditors
         then add_audit_engagement max_str_digits ae_title ae_department ae_audit_type
                ae_auditors ae_auditees ae_start_date ae_end_date report_name report_data s
         else Inr \<lparr>returned = PyNone,
                  shown = [Error ''Please fill in all required fields (Title, Department, Auditors).''],
                  state = s\<rparr>)"

text \<open>
  The select box that links a new record to its parent. The dictionary comprehension
  \<^verbatim>\<open>{r['ID']: f"{r['ID']} - {r[label]}" for r in store}\<close> maps each identifier to the text
  offered for it: a later record with the same identifier replaces the text and keeps
  the position. \<open>fmt\<close> is the text an f-string gives for a value (\<^verbatim>\<open>format(v, '')\<close>), a
  parameter: what is proved holds for whichever function it is.
\<close>

fun available_options ::
  "(pyval \<Rightarrow> string) \<Rightarrow> string \<Rightarrow> pydict list \<Rightarrow> (pyval \<times> string) list \<Rightarrow>
   exn + (pyval \<times> string) list" where
  "available_options fmt label [] available = Inr available"
| "available_options fmt label (r # rs) available =
     and_then (getitem r ''ID'') (\<lambda>k.
     and_then (getitem r label) (\<lambda>t.
     available_options fmt label rs (AList.update k (fmt k @ '' - '' @ fmt t) available)))"

text \<open>
  \<^verbatim>\<open>[k for k, v in available.items() if v == selected_display][0] if selected_display
  else None\<close>, where \<open>selected_display\<close> is what the select box returned.
\<close>

definition selected_key :: "(pyval \<times> string) list \<Rightarrow> pyval \<Rightarrow> exn + pyval" where
  "selected_key available selected_display =
     (if truthy selected_display then
        (case filter (\<lambda>item. PyStr (snd item) = selected_display) available of
           [] \<Rightarrow> Inl IndexError
         | item # _ \<Rightarrow> Inr (fst item))
      else Inr PyNone)"

text \<open>
  The finding form is only offered when an engagement exists, and the corrective-action
  form only when a finding exists; otherwise a warning is shown in its place. Each run
  of the form builds the options of its select box from the parent store, and takes the
  selected identifier from what the select box returned.
\<close>

definition submit_audit_finding_form ::
  "nat \<Rightarrow> (pyval \<Rightarrow> string) \<Rightarrow> pyval \<Rightarrow> pyval \<Rightarrow> pyval \<Rightarrow> (string \<times> string) option \<Rightarrow>
   pyval \<Rightarrow> pyval \<Rightarrow> pyval \<Rightarrow> session_state \<Rightarrow> exn + outcome" where
  "submit_audit_finding_form max_str_digits fmt selected_engagement_display find_category
       find_description find_evidence_file find_risk_level find_root_cause find_recommendation s =
     (if audit_engagements s = [] then
        Inr \<lparr>returned = PyNone,
             shown = [Warning ''Please create an Audit Engagement first before adding findings.''],
             state = s\<rparr>
      else
        and_then (available_options fmt ''Title'' (audit_engagements s) [])
          (\<lambda>available_engagements.
        and_then (selected_key available_engagements selected_engagement_display)
          (\<lambda>selected_engagement_id.
        let evidence_name = file_name find_evidence_file;
            evidence_data = file_data find_evidence_file
        in if truthy selected_engagement_id \<and> truthy find_description \<and> truthy find_risk_level
           then and_then
                  (add_audit_finding max_str_digits selected_engagement_id find_category
                     find_description find_risk_level find_root_cause find_recommendation
                     evidence_name evidence_data s)
                  (\<lambda>r. Inr (r\<lparr>returned := PyNone\<rparr>))
           else Inr \<lparr>returned = PyNone,
                    shown = [Error ''Please fill in all required fields (Engagement, Description, Risk Level).''],
                    state = s\<rparr>)))"

definition submit_corrective_action_form ::
  "nat \<Rightarrow> (pyval \<Rightarrow> string) \<Rightarrow> pyval \<Rightarrow> pyval \<Rightarrow> pyval \<Rightarrow> pyval \<Rightarrow>
   (string \<times> string) option \<Rightarrow> session_state \<Rightarrow> exn + outcome" where
  "submit_corrective_action_form max_str_digits fmt selected_finding_display
       ca_responsible_person ca_description ca_due_date ca_follow_up_file s =
     (if audit_findings s = [] then
        Inr \<lparr>returned = PyNone,
             shown = [Warning ''Please create an Audit Finding first before adding corrective actions.''],
             state = s\<rparr>
      else
        and_then (available_options fmt ''Description'' (audit_findings s) [])
          (\<lambda>available_findings.
        and_then (selected_key available_findings selected_finding_display)
          (\<lambda>selected_finding_id.
        let follow_up_name = file_name ca_follow_up_file;
            follow_up_data = file_data ca_follow_up_file
        in if truthy selected_finding_id \<and> truthy ca_responsible_person \<and> truthy ca_description
              \<and> truthy ca_due_date
           then add_corrective_action max_str_digits selected_finding_id ca_responsible_person
                  ca_description ca_due_date follow_up_name follow_up_data s
           else Inr \<lparr>returned = PyNone,
                    shown = [Error ''Please fill in all required fields (Finding, Responsible Person, Description, Due Date).''],
                    state = s\<rparr>)))"

section \<open>Status update\<close>

text \<open>
  The loop of the three update buttons:
  \<^verbatim>\<open>for r in store: if r['ID'] == selected: r['Status'] = new_status; ...; break\<close>.
  It returns the store and whether a record was found (then the success message is
  shown and the script reruns).
\<close>

fun update_status_loop :: "pydict list \<Rightarrow> pyval \<Rightarrow> pyval \<Rightarrow> exn + (pydict list \<times> bool)" where
  "update_status_loop [] selected_id new_status = Inr ([], False)"
| "update_status_loop (r # rs) selected_id new_status =
     and_then (getitem r ''ID'') (\<lambda>i.
       if i = selected_id then Inr (setitem r ''Status'' new_status # rs, True)
       else and_then (update_status_loop rs selected_id new_status) (\<lambda>(rs', found).
              Inr (r # rs', found)))"

text \<open>The list comprehension \<^verbatim>\<open>[r['ID'] for r in store]\<close> that fills the select box.\<close>

fun id_column :: "pydict list \<Rightarrow> exn + pyval list" where
  "id_column [] = Inr []"
| "id_column (r # rs) =
     and_then (getitem r ''ID'') (\<lambda>i. and_then (id_column rs) (\<lambda>is. Inr (i # is)))"

text \<open>
  The update section of a ``View All'' tab, when its button is pressed with the given
  selection: \<open>kind\<close> is the entity's name in the success message, \<open>none_yet\<close> and
  \<open>nothing\<close> are the two texts shown instead when there is nothing to update.
\<close>

definition update_section ::
  "string \<Rightarrow> string \<Rightarrow> string \<Rightarrow> pydict list \<Rightarrow> pyval \<Rightarrow> pyval \<Rightarrow> exn + (ui_msg list \<times> pydict list)" where
  "update_section kind none_yet nothing store selected_id new_status =
     (if store = [] then Inr ([Info none_yet], store)
      else and_then (id_column store) (\<lambda>ids.
        if ids = [] then Inr ([Info nothing], store)
        else and_then (update_status_loop store selected_id new_status) (\<lambda>(store', found).
          Inr (if found
               then [Success [Lit (''Status of '' @ kind @ '' ''), Val selected_id,
                              Lit '' updated to '', Val new_status]]
               else [], store'))))"

definition update_engagement_status :: "pyval \<Rightarrow> pyval \<Rightarrow> session_state \<Rightarrow> exn + outcome" where
  "update_engagement_status selected_ae_id new_status s =
     and_then (update_section ''Engagement'' ''No audit engagements created yet.''
                 ''No engagements to update.'' (audit_engagements s) selected_ae_id new_status)
       (\<lambda>(msgs, store'). Inr \<lparr>returned = PyNone, shown = msgs,
                              state = s\<lparr>audit_engagements := store'\<rparr>\<rparr>)"

definition update_finding_status :: "pyval \<Rightarrow> pyval \<Rightarrow> session_state \<Rightarrow> exn + outcome" where
  "update_finding_status selected_finding_id new_finding_status s =
     and_then (update_section ''Finding'' ''No audit findings created yet.''
                 ''No findings to update.'' (audit_findings s) selected_finding_id new_finding_status)
       (\<lambda>(msgs, store'). Inr \<lparr>returned = PyNone, shown = msgs,
                              state = s\<lparr>audit_findings := store'\<rparr>\<rparr>)"

definition update_corrective_action_status :: "pyval \<Rightarrow> pyval \<Rightarrow> session_state \<Rightarrow> exn + outcome" where
  "update_corrective_action_status selected_ca_id new_ca_status s =
     and_then (update_section ''Action'' ''No corrective actions created yet.''
                 ''No corrective actions to update.'' (corrective_actions s) selected_ca_id new_ca_status)
       (\<lambda>(msgs, store'). Inr \<lparr>returned = PyNone, shown = msgs,
                              state = s\<lparr>corrective_actions := store'\<rparr>\<rparr>)"

section \<open>Dashboard\<close>

text \<open>\<^verbatim>\<open>sum(1 for r in store if r['Status'] == value)\<close>.\<close>

fun count_status :: "pydict list \<Rightarrow> string \<Rightarrow> exn + nat" where
  "count_status [] v = Inr 0"
| "count_status (r # rs) v =
     and_then (getitem r ''Status'') (\<lambda>st.
     and_then (count_status rs v) (\<lambda>n. Inr (if st = PyStr v then Suc n else n)))"

definition total_audits :: "session_state \<Rightarrow> nat" where
  "total_audits s = length (audit_engagements s)"

definition completed_audits :: "session_state \<Rightarrow> exn + nat" where
  "completed_audits s = count_status (audit_engagements s) ''Completed''"

definition total_findings :: "session_state \<Rightarrow> nat" where
  "total_findings s = length (audit_findings s)"

definition closed_findings :: "session_state \<Rightarrow> exn + nat" where
  "closed_findings s = count_status (audit_findings s) ''Closed''"

text \<open>
  Floating-point numbers. A finite double is represented by the rational number it
  denotes. \<open>to_double\<close> rounds a rational to the nearest number with a 53-bit
  significand, ties to the even significand, which is what IEEE 754 binary64 division and
  multiplication return for the exact quotient and product (and what Python's true
  division of two integers returns). The exponent range is not limited: the quotient of
  two list lengths is zero or at least \<open>2\<^sup>-\<^sup>6\<^sup>3\<close>, far from underflow.
\<close>

definition round_half_even :: "rat \<Rightarrow> int" where
  "round_half_even q =
     (let f = \<lfloor>q\<rfloor>; d = q - of_int f
      in if d < 1 / 2 then f else if 1 / 2 < d then f + 1 else if even f then f else f + 1)"

text \<open>For a positive \<open>q\<close>, the exponent \<open>e\<close> with \<open>2\<^sup>e \<le> q < 2\<^sup>e\<^sup>+\<^sup>1\<close>.\<close>

definition binary_exponent :: "rat \<Rightarrow> int" where
  "binary_exponent q =
     (let (a, b) = quotient_of q; k = bitlen a - bitlen b
      in if 2 powi k \<le> q then k else k - 1)"

definition to_double :: "rat \<Rightarrow> rat" where
  "to_double q =
     (if q = 0 then 0
      else let ulp = 2 powi (binary_exponent \<bar>q\<bar> - 52)
           in sgn q * of_int (round_half_even (\<bar>q\<bar> / ulp)) * ulp)"

text \<open>
  \<^verbatim>\<open>f"{x:.1f}"\<close>: the decimal numeral with one digit after the point that is nearest to
  the exact value of \<open>x\<close>, ties to the even digit.
\<close>

definition format_1f :: "rat \<Rightarrow> string" where
  "format_1f x =
     (let tenths = nat (round_half_even (\<bar>x\<bar> * 10))
      in (if x < 0 then ''-'' else []) @ dec_str (tenths div 10) @ ''.'' @ dec_str (tenths mod 10))"

text \<open>
  \<^verbatim>\<open>percent_closed = (closed_findings / total_findings) * 100\<close> when there are findings,
  and the integer \<^verbatim>\<open>0\<close> otherwise; the metric shows \<^verbatim>\<open>f"{percent_closed:.1f}%"\<close>.
\<close>

definition percent_closed :: "session_state \<Rightarrow> exn + rat" where
  "percent_closed s =
     and_then (closed_findings s) (\<lambda>closed.
       Inr (if total_findings s > 0
            then to_double (to_double (of_nat closed / of_nat (total_findings s)) * 100)
            else 0))"

definition percent_closed_metric :: "session_state \<Rightarrow> exn + string" where
  "percent_closed_metric s = and_then (percent_closed s) (\<lambda>p. Inr (format_1f p @ ''%''))"

text \<open>
  \<^verbatim>\<open>v < datetime.now().date()\<close>: only a date can be compared with a date; the current
  date is a parameter of the query.
\<close>

fun before_date :: "pyval \<Rightarrow> int \<Rightarrow> exn + bool" where
  "before_date (PyDate d) today = Inr (d < today)"
| "before_date PyNone today = Inl TypeError"
| "before_date (PyStr s) today = Inl TypeError"
| "before_date (PyBytes s) today = Inl TypeError"

text \<open>
  \<^verbatim>\<open>sum(1 for ca in corrective_actions if ca['Status'] not in ['Verified', 'Closed']
  and ca['Due Date'] < datetime.now().date())\<close>. The conjunction is short-circuit: the due
  date of a verified or closed action is not read.
\<close>

fun overdue_actions :: "pydict list \<Rightarrow> int \<Rightarrow> exn + nat" where
  "overdue_actions [] today = Inr 0"
| "overdue_actions (ca # cas) today =
     and_then (getitem ca ''Status'') (\<lambda>st.
     and_then (if st \<notin> set [PyStr ''Verified'', PyStr ''Closed'']
               then and_then (getitem ca ''Due Date'') (\<lambda>due. before_date due today)
               else Inr False) (\<lambda>overdue.
     and_then (overdue_actions cas today) (\<lambda>n. Inr (if overdue then Suc n else n))))"

text \<open>
  Tables. \<^verbatim>\<open>pd.DataFrame(records)\<close> has one row for each record and one column for each
  key; the rows are kept as the dictionaries themselves, which is what the frame holds
  when all records have the same keys, as the records of one store do. \<^verbatim>\<open>tail(n)\<close> keeps
  the last \<open>n\<close> rows, \<^verbatim>\<open>drop(columns=cs, errors='ignore')\<close> removes columns, and
  \<^verbatim>\<open>set_index(k)\<close> moves column \<open>k\<close> out of the cells to label the rows.
\<close>

definition tail_rows :: "nat \<Rightarrow> pydict list \<Rightarrow> pydict list" where
  "tail_rows n df = drop (length df - n) df"

definition drop_columns :: "string list \<Rightarrow> pydict list \<Rightarrow> pydict list" where
  "drop_columns cs df = map (filter (\<lambda>cell. fst cell \<notin> set cs)) df"

fun set_index :: "string \<Rightarrow> pydict list \<Rightarrow> exn + (pyval \<times> pydict) list" where
  "set_index k [] = Inr []"
| "set_index k (row # rows) =
     and_then (getitem row k) (\<lambda>v.
     and_then (set_index k rows) (\<lambda>rest. Inr ((v, AList.delete k row) # rest)))"

datatype view = Table "(pyval \<times> pydict) list" | Message ui_msg

text \<open>The two ``Recent Activities'' tables of the dashboard.\<close>

definition recent_engagements :: "session_state \<Rightarrow> exn + view" where
  "recent_engagements s =
     (if audit_engagements s \<noteq> [] then
        and_then (set_index ''ID'' (tail_rows 5 (audit_engagements s))) (\<lambda>t. Inr (Table t))
      else Inr (Message (Info ''No audit engagements created yet.'')))"

definition recent_findings :: "session_state \<Rightarrow> exn + view" where
  "recent_findings s =
     (if audit_findings s \<noteq> [] then
        and_then (set_index ''ID'' (tail_rows 5 (audit_findings s))) (\<lambda>t. Inr (Table t))
      else Inr (Message (Info ''No audit findings created yet.'')))"

text \<open>The tables of the ``View All'' tabs, which drop the column of raw file data.\<close>

definition all_engagements :: "session_state \<Rightarrow> exn + view" where
  "all_engagements s =
     (if audit_engagements s \<noteq> [] then
        and_then (set_index ''ID'' (drop_columns [''Audit Report Data''] (audit_engagements s)))
          (\<lambda>t. Inr (Table t))
      else Inr (Message (Info ''No audit engagements created yet.'')))"

definition all_findings :: "session_state \<Rightarrow> exn + view" where
  "all_findings s =
     (if audit_findings s \<noteq> [] then
        and_then (set_index ''ID'' (drop_columns [''Evidence Data''] (audit_findings s)))
          (\<lambda>t. Inr (Table t))
      else Inr (Message (Info ''No audit findings created yet.'')))"

section \<open>Sequences of operations\<close>

text \<open>
  One step of a session is one of the three creations (called directly or through the
  form's submit handler) or one of the three status updates, with any arguments, that
  does not raise.
\<close>

inductive step :: "nat \<Rightarrow> session_state \<Rightarrow> session_state \<Rightarrow> bool"
  for max_str_digits :: nat where
  add_engagement:
    "add_audit_engagement max_str_digits a1 a2 a3 a4 a5 a6 a7 a8 a9 s = Inr r
     \<Longrightarrow> step max_str_digits s (state r)"
| add_finding:
    "add_audit_finding max_str_digits a1 a2 a3 a4 a5 a6 a7 a8 s = Inr r
     \<Longrightarrow> step max_str_digits s (state r)"
| add_action:
    "add_corrective_action max_str_digits a1 a2 a3 a4 a5 a6 s = Inr r
     \<Longrightarrow> step max_str_digits s (state r)"
| submit_engagement:
    "submit_audit_engagement_form max_str_digits a1 a2 a3 a4 a5 a6 a7 f s = Inr r
     \<Longrightarrow> step max_str_digits s (state r)"
| submit_finding:
    "submit_audit_finding_form max_str_digits fmt d a2 a3 f a4 a5 a6 s = Inr r
     \<Longrightarrow> step max_str_digits s (state r)"
| submit_action:
    "submit_corrective_action_form max_str_digits fmt d a2 a3 a4 f s = Inr r
     \<Longrightarrow> step max_str_digits s (state r)"
| update_engagement:
    "update_engagement_status i v s = Inr r \<Longrightarrow> step max_str_digits s (state r)"
| update_finding:
    "update_finding_status i v s = Inr r \<Longrightarrow> step max_str_digits s (state r)"
| update_action:
    "update_corrective_action_status i v s = Inr r \<Longrightarrow> step max_str_digits s (state r)"

inductive reachable :: "nat \<Rightarrow> session_state \<Rightarrow> bool"
  for max_str_digits :: nat where
  start: "reachable max_str_digits initial_state"
| next_step:
    "reachable max_str_digits s \<Longrightarrow> step max_str_digits s s' \<Longrightarrow> reachable max_str_digits s'"

text \<open>
  Running a list of operations one after the other, each on the state left by the one
  before, collecting what they return; the first exception ends the run.
\<close>

fun run_ops ::
  "(session_state \<Rightarrow> exn + outcome) list \<Rightarrow> session_state \<Rightarrow> exn + (pyval list \<times> session_state)" where
  "run_ops [] s = Inr ([], s)"
| "run_ops (op # ops) s =
     and_then (op s) (\<lambda>r.
     and_then (run_ops ops (state r)) (\<lambda>(vs, s'). Inr (returned r # vs, s')))"

section \<open>Notions of the specification\<close>

text \<open>The number that a string of decimal digits denotes.\<close>

definition dec_value :: "string \<Rightarrow> nat" where
  "dec_value ds = foldl (\<lambda>a c. 10 * a + digit_val c) 0 ds"

text \<open>The number \<open>n\<close> in decimal, zero-padded to width \<open>w\<close>.\<close>

definition zero_padded :: "nat \<Rightarrow> nat \<Rightarrow> string" where
  "zero_padded w n = replicate (w - length (dec_str n)) CHR ''0'' @ dec_str n"

text \<open>The identifier of a record, when it is a string.\<close>

definition id_of :: "pydict \<Rightarrow> string option" where
  "id_of item = (case map_of item ''ID'' of Some (PyStr i) \<Rightarrow> Some i | _ \<Rightarrow> None)"

text \<open>
  A record's identifier consists of the prefix followed by a numeric suffix: one or more
  decimal digits.
\<close>

definition numeric_id :: "string \<Rightarrow> pydict \<Rightarrow> bool" where
  "numeric_id prefix item =
     (case id_of item of
        None \<Rightarrow> False
      | Some i \<Rightarrow> take (length prefix) i = prefix \<and> drop (length prefix) i \<noteq> []
                  \<and> list_all is_digit (drop (length prefix) i))"

text \<open>The number of digits of a record's numeric suffix.\<close>

definition suffix_length :: "string \<Rightarrow> pydict \<Rightarrow> nat" where
  "suffix_length prefix item =
     (case id_of item of None \<Rightarrow> 0 | Some i \<Rightarrow> length (drop (length prefix) i))"

definition suffix_number :: "string \<Rightarrow> pydict \<Rightarrow> nat" where
  "suffix_number prefix item =
     (case id_of item of None \<Rightarrow> 0 | Some i \<Rightarrow> dec_value (drop (length prefix) i))"

text \<open>
  The invariant of a store: every identifier is the prefix with a numeric suffix, the
  identifiers are pairwise different, and the suffixes increase strictly in creation order.
\<close>

definition ids_increasing :: "string \<Rightarrow> pydict list \<Rightarrow> bool" where
  "ids_increasing prefix store =
     (list_all (numeric_id prefix) store
      \<and> distinct (map (\<lambda>item. map_of item ''ID'') store)
      \<and> sorted_wrt (<) (map (suffix_number prefix) store))"

definition store_invariant :: "session_state \<Rightarrow> bool" where
  "store_invariant s =
     (ids_increasing ''AE'' (audit_engagements s)
      \<and> ids_increasing ''F'' (audit_findings s)
      \<and> ids_increasing ''CA'' (corrective_actions s))"

text \<open>A record with an identifier and a status, as every record of the three stores is.\<close>

definition has_id_and_status :: "pydict \<Rightarrow> bool" where
  "has_id_and_status r = (map_of r ''ID'' \<noteq> None \<and> map_of r ''Status'' \<noteq> None)"

definition records_complete :: "session_state \<Rightarrow> bool" where
  "records_complete s =
     (list_all has_id_and_status (audit_engagements s)
      \<and> list_all has_id_and_status (audit_findings s)
      \<and> list_all has_id_and_status (corrective_actions s))"

text \<open>The number of findings whose status is ``Closed''.\<close>

definition closed_count :: "pydict list \<Rightarrow> nat" where
  "closed_count store = length (filter (\<lambda>f. map_of f ''Status'' = Some (PyStr ''Closed'')) store)"

text \<open>
  A corrective action is overdue on a date when its status is neither ``Verified'' nor
  ``Closed'' and its due date is strictly earlier.
\<close>

definition overdue_on :: "int \<Rightarrow> pydict \<Rightarrow> bool" where
  "overdue_on today ca =
     (map_of ca ''Status'' \<noteq> Some (PyStr ''Verified'')
      \<and> map_of ca ''Status'' \<noteq> Some (PyStr ''Closed'')
      \<and> (case map_of ca ''Due Date'' of Some (PyDate d) \<Rightarrow> d < today | _ \<Rightarrow> False))"

text \<open>A record of the corrective-action store: it has a status, and its due date is a date.\<close>

definition action_record :: "pydict \<Rightarrow> bool" where
  "action_record ca =
     (map_of ca ''Status'' \<noteq> None
      \<and> (case map_of ca ''Due Date'' of Some (PyDate d) \<Rightarrow> True | _ \<Rightarrow> False))"

section \<open>Decimal numerals: \<^verbatim>\<open>int\<close> inverts \<^verbatim>\<open>str\<close> and \<^verbatim>\<open>zfill\<close>\<close>

lemma and_then_Inr [simp]: "and_then (Inr x) f = f x"
  by (simp add: and_then_def)

lemma and_then_Inl [simp]: "and_then (Inl e) f = Inl e"
  by (simp add: and_then_def)

lemma and_then_eq_Inr: "and_then m f = Inr y \<longleftrightarrow> (\<exists>x. m = Inr x \<and> f x = Inr y)"
  by (cases m) auto

lemma within_limit_small: "n \<le> 640 \<Longrightarrow> within_limit mx n"
  by (simp add: within_limit_def max_def)

lemma within_limit_mono: "a \<le> b \<Longrightarrow> within_limit mx b \<Longrightarrow> within_limit mx a"
  by (auto simp: within_limit_def)

lemma within_limit_none: "within_limit 0 n"
  by (simp add: within_limit_def)

lemma within_limit_default: "within_limit 4300 n \<longleftrightarrow> n \<le> 4300"
  by (simp add: within_limit_def)

lemma digit_val_digit_char: "d < 10 \<Longrightarrow> digit_val (digit_char d) = d"
  by (simp add: digit_val_def digit_char_def)

lemma is_digit_digit_char: "d < 10 \<Longrightarrow> is_digit (digit_char d)"
  by (simp add: is_digit_def digit_char_def)

lemma is_digit_not_space: "is_digit c \<Longrightarrow> \<not> is_space c"
  by (auto simp: is_digit_def is_space_def)

lemma is_digit_not_space_unicode: "is_digit c \<Longrightarrow> \<not> is_space_unicode c"
  by (auto simp: is_digit_def is_space_unicode_def is_space_def)

lemma minus_not_space: "\<not> is_space CHR ''-''" "\<not> is_space_unicode CHR ''-''"
  by (simp_all add: is_space_unicode_def is_space_def)

lemma is_digit_not_sign: "is_digit c \<Longrightarrow> c \<noteq> CHR ''-'' \<and> c \<noteq> CHR ''+'' \<and> c \<noteq> CHR ''_''"
  by (auto simp: is_digit_def)

lemma is_digit_zero: "is_digit CHR ''0''"
  by (simp add: is_digit_def)

lemma parse_digits_all:
  "\<forall>c\<in>set ds. is_digit c \<Longrightarrow>
   parse_digits acc ds = Some (foldl (\<lambda>a c. 10 * a + digit_val c) acc ds)"
  by (induction acc ds rule: parse_digits.induct) auto

lemma parse_unsigned_digits:
  "ds \<noteq> [] \<Longrightarrow> \<forall>c\<in>set ds. is_digit c \<Longrightarrow> parse_unsigned ds = Some (dec_value ds)"
  by (cases ds) (auto simp: parse_unsigned_def dec_value_def parse_digits_all)

lemma strip_id:
  assumes "s \<noteq> []" "\<not> space (hd s)" "\<not> space (last s)"
  shows "strip space s = s"
proof -
  have d: "dropWhile space t = t" if "t \<noteq> []" "\<not> space (hd t)" for t
    using that by (cases t) auto
  have "dropWhile space (rev s) = rev s"
    using assms by (intro d) (auto simp: hd_rev)
  then show ?thesis using assms by (simp add: strip_def d)
qed

lemma filter_digits: "\<forall>c\<in>set ds. is_digit c \<Longrightarrow> filter is_digit ds = ds"
  by (induction ds) auto

text \<open>
  On a non-empty string of digits, \<^verbatim>\<open>int\<close> gives the number the digits denote, unless
  there are more digits than the limit allows.
\<close>

lemma int_of_literal_digits:
  assumes "ds \<noteq> []" "\<forall>c\<in>set ds. is_digit c" "\<forall>c. is_digit c \<longrightarrow> \<not> space c"
  shows "int_of_literal space mx ds
         = (if within_limit mx (length ds) then Inr (int (dec_value ds)) else Inl ValueError)"
proof -
  obtain c cs where ds: "ds = c # cs" using assms(1) by (cases ds) auto
  have c: "is_digit c" using assms(2) ds by simp
  have "\<not> space (hd ds)" "\<not> space (last ds)" using assms by simp_all
  then have "strip space ds = ds" using assms(1) by (intro strip_id)
  then show ?thesis
    using parse_unsigned_digits[OF assms(1,2)] is_digit_not_sign[OF c] filter_digits[OF assms(2)] ds
    by (simp add: int_of_literal_def Let_def)
qed

lemma int_of_literal_minus:
  assumes "ds \<noteq> []" "\<forall>c\<in>set ds. is_digit c" "\<forall>c. is_digit c \<longrightarrow> \<not> space c"
    "\<not> space CHR ''-''"
  shows "int_of_literal space mx (CHR ''-'' # ds)
         = (if within_limit mx (length ds) then Inr (- int (dec_value ds)) else Inl ValueError)"
proof -
  have "\<not> space (last (CHR ''-'' # ds))" using assms by simp
  then have "strip space (CHR ''-'' # ds) = CHR ''-'' # ds"
    using assms(4) by (intro strip_id) simp_all
  then show ?thesis
    using parse_unsigned_digits[OF assms(1,2)] filter_digits[OF assms(2)]
    by (simp add: int_of_literal_def Let_def)
qed

lemma dec_value_snoc: "dec_value (ds @ [c]) = 10 * dec_value ds + digit_val c"
  by (simp add: dec_value_def)

lemma dec_str_digits: "c \<in> set (dec_str n) \<Longrightarrow> is_digit c"
  by (induction n rule: dec_str.induct)
    (subst (asm) dec_str.simps, auto simp: is_digit_digit_char split: if_splits)

lemma dec_str_nonempty: "dec_str n \<noteq> []"
  by (subst dec_str.simps) simp

lemma dec_value_dec_str: "dec_value (dec_str n) = n"
proof (induction n rule: dec_str.induct)
  case (1 n)
  show ?case
  proof (cases "n < 10")
    case True
    then show ?thesis by (subst dec_str.simps) (simp add: dec_value_def digit_val_digit_char)
  next
    case False
    then show ?thesis using 1
      by (subst dec_str.simps) (simp add: dec_value_snoc digit_val_digit_char)
  qed
qed

lemma dec_value_zeros: "dec_value (replicate k CHR ''0'' @ ds) = dec_value ds"
proof -
  have "foldl (\<lambda>a c. 10 * a + digit_val c) 0 (replicate k CHR ''0'') = 0"
    by (induction k) (simp_all add: digit_val_def)
  then show ?thesis by (simp add: dec_value_def)
qed

lemma zfill_digits:
  assumes "ds \<noteq> []" "\<forall>c\<in>set ds. is_digit c"
  shows "zfill w ds = replicate (w - length ds) CHR ''0'' @ ds"
proof -
  obtain c cs where ds: "ds = c # cs" using assms by (cases ds) auto
  then have "is_digit c" using assms by simp
  then show ?thesis using is_digit_not_sign[of c] ds by (auto simp: zfill_def)
qed

lemma zfill_minus:
  "zfill w (CHR ''-'' # ds) = CHR ''-'' # replicate (w - Suc (length ds)) CHR ''0'' @ ds"
  by (auto simp: zfill_def)

lemma zfill_dec_str: "zfill w (dec_str n) = zero_padded w n"
  by (simp add: zfill_digits dec_str_nonempty dec_str_digits zero_padded_def)

lemma zero_padded_digits: "c \<in> set (zero_padded w n) \<Longrightarrow> is_digit c"
  by (auto simp: zero_padded_def dec_str_digits is_digit_zero)

lemma zero_padded_nonempty: "zero_padded w n \<noteq> []"
  by (simp add: zero_padded_def dec_str_nonempty)

lemma dec_value_zero_padded: "dec_value (zero_padded w n) = n"
  by (simp add: zero_padded_def dec_value_zeros dec_value_dec_str)

lemma length_zero_padded: "length (zero_padded w n) = max w (length (dec_str n))"
  by (simp add: zero_padded_def max_def)

lemma zero_padded_1: "zero_padded 3 (Suc 0) = ''001''"
  by code_simp

lemma within_limit_padded:
  "within_limit mx (length (dec_str n)) \<Longrightarrow> within_limit mx (length (zero_padded 3 n))"
  by (cases "length (dec_str n) \<le> 3")
    (simp_all add: length_zero_padded max_def within_limit_small)

text \<open>What \<^verbatim>\<open>str\<close> gives for \<open>n + 1\<close>, \<open>n\<close> a natural number.\<close>

lemma py_str_succ:
  "py_str mx (int n + 1)
   = (if within_limit mx (length (dec_str (Suc n))) then Inr (dec_str (Suc n)) else Inl ValueError)"
proof -
  have "nat \<bar>int n + 1\<bar> = Suc n" by simp
  then show ?thesis by (simp add: py_str_def Let_def del: of_nat_Suc)
qed

text \<open>\<^verbatim>\<open>int\<close> reads back what \<^verbatim>\<open>str\<close> and \<^verbatim>\<open>zfill(3)\<close> wrote.\<close>

lemma int_of_literal_zfill_str:
  assumes s: "py_str mx n = Inr s"
    and sp: "\<forall>c. is_digit c \<longrightarrow> \<not> space c" "\<not> space CHR ''-''"
  shows "int_of_literal space mx (zfill 3 s) = Inr n"
proof -
  let ?d = "dec_str (nat \<bar>n\<bar>)"
  from s have w: "within_limit mx (length ?d)"
    and sv: "s = (if n < 0 then CHR ''-'' # ?d else ?d)"
    by (auto simp: py_str_def Let_def split: if_splits)
  show ?thesis
  proof (cases "n < 0")
    case True
    let ?ds = "replicate (3 - Suc (length ?d)) CHR ''0'' @ ?d"
    have ne: "?ds \<noteq> []" by (simp add: dec_str_nonempty)
    have dg: "\<forall>c\<in>set ?ds. is_digit c" by (auto simp: dec_str_digits is_digit_zero)
    have "length ?ds \<le> length (zero_padded 3 (nat \<bar>n\<bar>))"
      by (simp add: zero_padded_def)
    with within_limit_padded[OF w] have "within_limit mx (length ?ds)"
      by (rule within_limit_mono[rotated])
    with int_of_literal_minus[OF ne dg sp, of mx]
    have "int_of_literal space mx (CHR ''-'' # ?ds) = Inr (- int (dec_value ?ds))" by simp
    then show ?thesis using True sv
      by (simp add: zfill_minus dec_value_zeros dec_value_dec_str)
  next
    case False
    let ?ds = "zero_padded 3 (nat \<bar>n\<bar>)"
    have ne: "?ds \<noteq> []" by (rule zero_padded_nonempty)
    have dg: "\<forall>c\<in>set ?ds. is_digit c" by (simp add: zero_padded_digits)
    from int_of_literal_digits[OF ne dg sp(1), of mx] within_limit_padded[OF w]
    have "int_of_literal space mx ?ds = Inr (int (dec_value ?ds))" by simp
    then show ?thesis using False sv by (simp add: zfill_dec_str dec_value_zero_padded)
  qed
qed

section \<open>The identifier generator on well-formed stores\<close>

lemma numeric_idD:
  assumes "numeric_id prefix item"
  obtains ds where "map_of item ''ID'' = Some (PyStr (prefix @ ds))" "ds \<noteq> []"
    "\<forall>c\<in>set ds. is_digit c" "suffix_number prefix item = dec_value ds"
    "suffix_length prefix item = length ds"
proof -
  from assms obtain i where i: "map_of item ''ID'' = Some (PyStr i)"
    "take (length prefix) i = prefix" "drop (length prefix) i \<noteq> []"
    "list_all is_digit (drop (length prefix) i)"
    by (auto simp: numeric_id_def id_of_def split: option.splits pyval.splits)
  have "i = prefix @ drop (length prefix) i"
    using i(2) append_take_drop_id[of "length prefix" i] by simp
  then show ?thesis using i that[of "drop (length prefix) i"]
    by (auto simp: suffix_number_def suffix_length_def id_of_def list_all_iff)
qed

lemma id_numbers_numeric:
  "list_all (numeric_id prefix) store \<Longrightarrow>
   id_numbers mx prefix store
   = (if list_all (\<lambda>item. within_limit mx (suffix_length prefix item)) store
      then Inr (map (\<lambda>item. int (suffix_number prefix item)) store)
      else Inl ValueError)"
proof (induction store)
  case Nil
  then show ?case by simp
next
  case (Cons item store)
  from Cons.prems have "numeric_id prefix item" by simp
  then obtain ds where ds: "map_of item ''ID'' = Some (PyStr (prefix @ ds))" "ds \<noteq> []"
    "\<forall>c\<in>set ds. is_digit c" "suffix_number prefix item = dec_value ds"
    "suffix_length prefix item = length ds"
    by (rule numeric_idD)
  have "py_int mx (PyStr ds)
        = (if within_limit mx (length ds) then Inr (int (dec_value ds)) else Inl ValueError)"
    using int_of_literal_digits[OF ds(2,3), of is_space_unicode mx]
    by (simp add: is_digit_not_space_unicode)
  then show ?case using Cons ds by (simp add: getitem_def)
qed

lemma py_max_Max:
  assumes "xs \<noteq> []"
  shows "py_max xs = Inr (Max (set xs))"
proof (cases xs)
  case Nil
  then show ?thesis using assms by simp
next
  case (Cons y ys)
  have "fold max ys y = Max (set (y # ys))" by (rule Max.set_eq_fold[symmetric])
  then show ?thesis using Cons by (simp add: py_max_def)
qed

lemma Max_int_image: "finite A \<Longrightarrow> A \<noteq> {} \<Longrightarrow> Max (int ` A) = int (Max A)"
  by (rule mono_Max_commute[symmetric]) (auto simp: mono_def)

text \<open>
  The generator on a non-empty store of well-formed identifiers: the successor of the
  greatest suffix, unless a suffix or that successor has more digits than the limit allows.
\<close>

lemma generate_id_numeric:
  assumes "list_all (numeric_id prefix) store" "store \<noteq> []"
  shows "generate_id mx prefix store
         = (if list_all (\<lambda>item. within_limit mx (suffix_length prefix item)) store
               \<and> within_limit mx (length (dec_str (Max (suffix_number prefix ` set store) + 1)))
            then Inr (prefix @ zero_padded 3 (Max (suffix_number prefix ` set store) + 1))
            else Inl ValueError)"
proof -
  let ?m = "Max (suffix_number prefix ` set store)"
  have m: "Max (set (map (\<lambda>item. int (suffix_number prefix item)) store)) = int ?m"
    using assms(2) Max_int_image[of "suffix_number prefix ` set store"] by (simp add: image_image)
  show ?thesis
  proof (cases "list_all (\<lambda>item. within_limit mx (suffix_length prefix item)) store")
    case False
    then show ?thesis using assms by (simp add: generate_id_def id_numbers_numeric)
  next
    case True
    then have "generate_id mx prefix store
               = and_then (py_str mx (int ?m + 1)) (\<lambda>digits. Inr (prefix @ zfill 3 digits))"
      using assms m by (simp add: generate_id_def id_numbers_numeric py_max_Max)
    then show ?thesis using True by (simp add: py_str_succ zfill_dec_str)
  qed
qed

text \<open>
  Claim C1, as amended. For every prefix and every store whose records' identifiers each
  consist of that prefix followed by a numeric suffix, \<open>generate_id\<close> returns the prefix
  followed by \<open>001\<close> when the store is empty. Otherwise, when no suffix and not the
  successor of the greatest suffix has more digits than the conversion limit allows
  (4300 by default), it raises nothing and returns the prefix followed by that successor,
  zero-padded to width 3; with more digits it raises \<open>ValueError\<close>.
\<close>

theorem generate_id_next:
  assumes "\<forall>item\<in>set store. numeric_id prefix item"
  shows "generate_id max_str_digits prefix store
         = (if store = [] then Inr (prefix @ ''001'')
            else if list_all (\<lambda>item. within_limit max_str_digits (suffix_length prefix item)) store
                    \<and> within_limit max_str_digits
                        (length (dec_str (Max (suffix_number prefix ` set store) + 1)))
                 then Inr (prefix @ zero_padded 3 (Max (suffix_number prefix ` set store) + 1))
                 else Inl ValueError)"
proof (cases "store = []")
  case True
  then show ?thesis by (simp add: generate_id_def)
next
  case False
  from assms have "list_all (numeric_id prefix) store" by (simp add: list_all_iff)
  from generate_id_numeric[OF this False, of max_str_digits] False show ?thesis by simp
qed

theorem generate_id_next_witness:
  "list_all (numeric_id ''AE'') [[(''ID'', PyStr ''AE007'')], [(''ID'', PyStr ''AE02'')]]
   \<and> generate_id 4300 ''AE'' [[(''ID'', PyStr ''AE007'')], [(''ID'', PyStr ''AE02'')]]
       = Inr ''AE008''"
proof -
  let ?store = "[[(''ID'', PyStr ''AE007'')], [(''ID'', PyStr ''AE02'')]]"
  have h: "\<forall>item\<in>set ?store. numeric_id ''AE'' item" by code_simp
  have "map (suffix_number ''AE'') ?store = [7, 2]" by code_simp
  then have "set (map (suffix_number ''AE'') ?store) = {7, 2}" by simp
  then have m: "Max (suffix_number ''AE'' ` set ?store) = 7" by simp
  have z: "zero_padded 3 8 = ''008''" by code_simp
  have w: "list_all (\<lambda>item. within_limit 4300 (suffix_length ''AE'' item)) ?store" by code_simp
  have d: "within_limit 4300 (length (dec_str 8))" by code_simp
  from generate_id_next[OF h, of 4300] have "generate_id 4300 ''AE'' ?store = Inr ''AE008''"
    unfolding m using w d by (simp add: z)
  with h show ?thesis by (simp add: list_all_iff)
qed

text \<open>
  Claim C1 as stated fails: a suffix of 4301 digits is numeric, and the generator raises
  \<open>ValueError\<close> on it under the default limit of 4300 digits.
\<close>

theorem generate_id_raises_counterexample:
  "list_all (numeric_id ''AE'')
     [[(''ID'', PyStr (''AE'' @ replicate 4300 CHR ''0'' @ ''7''))]]
   \<and> generate_id 4300 ''AE'' [[(''ID'', PyStr (''AE'' @ replicate 4300 CHR ''0'' @ ''7''))]]
       = Inl ValueError"
proof -
  let ?item = "[(''ID'', PyStr (''AE'' @ replicate 4300 CHR ''0'' @ ''7''))]"
  have d: "list_all is_digit (replicate 4300 CHR ''0'' @ ''7'')"
    by (simp add: list_all_iff is_digit_def)
  then have n: "numeric_id ''AE'' ?item"
    by (simp add: numeric_id_def id_of_def)
  have "suffix_length ''AE'' ?item = 4301"
    by (simp add: suffix_length_def id_of_def)
  then have "\<not> list_all (\<lambda>item. within_limit 4300 (suffix_length ''AE'' item)) [?item]"
    by (simp add: within_limit_def)
  with generate_id_numeric[of "''AE''" "[?item]" 4300] n show ?thesis by simp
qed

text \<open>
  Claim C10. For a store whose identifiers each consist of the prefix followed by a
  numeric suffix, \<open>generate_id\<close> returns the same result for every permutation of the
  records, and, when no suffix has more digits than the conversion limit allows, for every
  such store with the same multiset of numeric suffixes.
\<close>

theorem generate_id_permutation:
  assumes "\<forall>item\<in>set xs. numeric_id prefix item"
  shows "(mset ys = mset xs \<longrightarrow>
            generate_id max_str_digits prefix ys = generate_id max_str_digits prefix xs)
       \<and> ((\<forall>item\<in>set ys. numeric_id prefix item)
            \<and> list_all (\<lambda>item. within_limit max_str_digits (suffix_length prefix item)) xs
            \<and> list_all (\<lambda>item. within_limit max_str_digits (suffix_length prefix item)) ys
            \<and> mset (map (suffix_number prefix) ys) = mset (map (suffix_number prefix) xs)
          \<longrightarrow> generate_id max_str_digits prefix ys = generate_id max_str_digits prefix xs)"
proof -
  let ?w = "\<lambda>item. within_limit max_str_digits (suffix_length prefix item)"
  have nx: "list_all (numeric_id prefix) xs" using assms by (simp add: list_all_iff)
  have same: "generate_id max_str_digits prefix ys = generate_id max_str_digits prefix xs"
    if ny: "list_all (numeric_id prefix) ys"
      and w: "list_all ?w ys = list_all ?w xs"
      and m: "mset (map (suffix_number prefix) ys) = mset (map (suffix_number prefix) xs)" for ys
  proof (cases "xs = []")
    case True
    with m have "ys = []" by simp
    with True show ?thesis by simp
  next
    case False
    with m have ne: "ys \<noteq> []" by auto
    from m have "set (map (suffix_number prefix) ys) = set (map (suffix_number prefix) xs)"
      by (rule mset_eq_setD)
    then have "suffix_number prefix ` set ys = suffix_number prefix ` set xs" by simp
    then show ?thesis
      using generate_id_numeric[OF nx False, of max_str_digits]
        generate_id_numeric[OF ny ne, of max_str_digits] w
      by simp
  qed
  have 1: "generate_id max_str_digits prefix ys = generate_id max_str_digits prefix xs"
    if p: "mset ys = mset xs"
  proof -
    from p have e: "set ys = set xs" by (rule mset_eq_setD)
    from p have "mset (map (suffix_number prefix) ys) = mset (map (suffix_number prefix) xs)"
      by simp
    moreover have "list_all (numeric_id prefix) ys" using nx e by (simp add: list_all_iff)
    moreover have "list_all ?w ys = list_all ?w xs" using e by (simp add: list_all_iff)
    ultimately show ?thesis by (intro same)
  qed
  have 2: "generate_id max_str_digits prefix ys = generate_id max_str_digits prefix xs"
    if "\<forall>item\<in>set ys. numeric_id prefix item" "list_all ?w xs" "list_all ?w ys"
      "mset (map (suffix_number prefix) ys) = mset (map (suffix_number prefix) xs)"
    using that by (intro same) (simp_all add: list_all_iff)
  from 1 2 show ?thesis by (intro conjI impI) simp_all
qed

theorem generate_id_permutation_witness:
  "list_all (numeric_id ''F'') [[(''ID'', PyStr ''F003'')], [(''ID'', PyStr ''F010'')]]
   \<and> mset [[(''ID'', PyStr ''F010'')], [(''ID'', PyStr ''F003'')]]
       = mset [[(''ID'', PyStr ''F003'')], [(''ID'', PyStr ''F010'')]]
   \<and> generate_id 4300 ''F'' [[(''ID'', PyStr ''F010'')], [(''ID'', PyStr ''F003'')]]
       = generate_id 4300 ''F'' [[(''ID'', PyStr ''F003'')], [(''ID'', PyStr ''F010'')]]
   \<and> generate_id 4300 ''F'' [[(''ID'', PyStr ''F010'')], [(''ID'', PyStr ''F003'')]] = Inr ''F011''
   \<and> list_all (numeric_id ''F'') [[(''ID'', PyStr ''F10''), (''Status'', PyStr ''Open'')], [(''ID'', PyStr ''F3'')]]
   \<and> mset (map (suffix_number ''F'') [[(''ID'', PyStr ''F10''), (''Status'', PyStr ''Open'')], [(''ID'', PyStr ''F3'')]])
       = mset (map (suffix_number ''F'') [[(''ID'', PyStr ''F003'')], [(''ID'', PyStr ''F010'')]])
   \<and> generate_id 4300 ''F'' [[(''ID'', PyStr ''F10''), (''Status'', PyStr ''Open'')], [(''ID'', PyStr ''F3'')]]
       = generate_id 4300 ''F'' [[(''ID'', PyStr ''F003'')], [(''ID'', PyStr ''F010'')]]"
proof -
  let ?xs = "[[(''ID'', PyStr ''F003'')], [(''ID'', PyStr ''F010'')]]"
  let ?ys = "[[(''ID'', PyStr ''F010'')], [(''ID'', PyStr ''F003'')]]"
  let ?zs = "[[(''ID'', PyStr ''F10''), (''Status'', PyStr ''Open'')], [(''ID'', PyStr ''F3'')]]"
  have h: "\<forall>item\<in>set ?xs. numeric_id ''F'' item" by code_simp
  have p: "mset ?ys = mset ?xs" by (simp add: add_mset_commute)
  have z: "\<forall>item\<in>set ?zs. numeric_id ''F'' item" by code_simp
  have wx: "list_all (\<lambda>item. within_limit 4300 (suffix_length ''F'' item)) ?xs" by code_simp
  have wz: "list_all (\<lambda>item. within_limit 4300 (suffix_length ''F'' item)) ?zs" by code_simp
  have "map (suffix_number ''F'') ?zs = [10, 3]" by code_simp
  moreover have "map (suffix_number ''F'') ?xs = [3, 10]" by code_simp
  ultimately have q: "mset (map (suffix_number ''F'') ?zs) = mset (map (suffix_number ''F'') ?xs)"
    by (simp add: add_mset_commute)
  have v: "generate_id 4300 ''F'' ?ys = Inr ''F011''" by code_simp
  have 1: "generate_id 4300 ''F'' ?ys = generate_id 4300 ''F'' ?xs"
    by (rule generate_id_permutation[OF h, of ?ys 4300, THEN conjunct1, rule_format, OF p])
  have 2: "generate_id 4300 ''F'' ?zs = generate_id 4300 ''F'' ?xs"
    using generate_id_permutation[OF h, of ?zs 4300, THEN conjunct2] z wx wz q by blast
  have h': "list_all (numeric_id ''F'') ?xs" and z': "list_all (numeric_id ''F'') ?zs"
    using h z by (simp_all only: list_all_iff)
  from h' p 1 v z' q 2 show ?thesis by (intro conjI)
qed

section \<open>Dictionaries and the update loop\<close>

lemma map_of_setitem: "map_of (setitem r k v) k' = (if k' = k then Some v else map_of r k')"
  by (simp add: setitem_def update_conv')

lemma keys_setitem: "k \<in> fst ` set r \<Longrightarrow> map fst (setitem r k v) = map fst r"
  by (simp add: setitem_def update_keys)

lemma length_setitem: "k \<in> fst ` set r \<Longrightarrow> length (setitem r k v) = length r"
  using keys_setitem[of k r v] by (metis length_map)

lemma getitem_Some: "map_of r k = Some v \<Longrightarrow> getitem r k = Inr v"
  by (simp add: getitem_def)

lemma getitem_None: "map_of r k = None \<Longrightarrow> getitem r k = Inl KeyError"
  by (simp add: getitem_def)

lemma update_status_loop_not_found:
  assumes "\<forall>r\<in>set store. map_of r ''ID'' \<noteq> None" "\<forall>r\<in>set store. map_of r ''ID'' \<noteq> Some target"
  shows "update_status_loop store target new = Inr (store, False)"
  using assms by (induction store) (auto simp: getitem_def split: option.splits)

lemma update_status_loop_found:
  assumes "\<forall>r\<in>set store. map_of r ''ID'' \<noteq> None" "\<exists>r\<in>set store. map_of r ''ID'' = Some target"
  shows "\<exists>i<length store. map_of (store ! i) ''ID'' = Some target
           \<and> (\<forall>j<i. map_of (store ! j) ''ID'' \<noteq> Some target)
           \<and> update_status_loop store target new
               = Inr (store[i := setitem (store ! i) ''Status'' new], True)"
  using assms
proof (induction store)
  case Nil
  then show ?case by simp
next
  case (Cons r rs)
  from Cons.prems obtain v where v: "map_of r ''ID'' = Some v" by auto
  show ?case
  proof (cases "v = target")
    case True
    then have "update_status_loop (r # rs) target new = Inr ((r # rs)[0 := setitem r ''Status'' new], True)"
      using v by (simp add: getitem_def)
    then show ?thesis using v True by (intro exI[of _ 0]) simp
  next
    case False
    with Cons.prems v have "\<exists>r\<in>set rs. map_of r ''ID'' = Some target" by auto
    with Cons obtain i where i: "i < length rs" "map_of (rs ! i) ''ID'' = Some target"
      "\<forall>j<i. map_of (rs ! j) ''ID'' \<noteq> Some target"
      "update_status_loop rs target new = Inr (rs[i := setitem (rs ! i) ''Status'' new], True)"
      by auto
    have "\<forall>j<Suc i. map_of ((r # rs) ! j) ''ID'' \<noteq> Some target"
      using i(3) v False by (auto simp: less_Suc_eq_0_disj)
    then show ?thesis using i v False by (intro exI[of _ "Suc i"]) (simp add: getitem_def)
  qed
qed

lemma id_column_ok:
  "\<forall>r\<in>set store. map_of r ''ID'' \<noteq> None \<Longrightarrow> \<exists>ids. id_column store = Inr ids \<and> length ids = length store"
  by (induction store) (auto simp: getitem_def)

section \<open>Status update in place\<close>

text \<open>
  Claim C6. In a store whose records all have an identifier: when a record has the target
  identifier, the update loop succeeds and replaces the first such record by the same
  record with its \<open>Status\<close> set to the new value, every other record staying as it
  was; setting \<open>Status\<close> changes the value under that key only and keeps the keys and
  their order. When no record has the target identifier the loop returns the store
  unchanged, raises nothing and reports that nothing was found.
\<close>

theorem update_status_in_place:
  assumes "\<forall>r\<in>set store. map_of r ''ID'' \<noteq> None"
  shows "((\<exists>r\<in>set store. map_of r ''ID'' = Some target) \<longrightarrow>
            (\<exists>i<length store. map_of (store ! i) ''ID'' = Some target
               \<and> (\<forall>j<i. map_of (store ! j) ''ID'' \<noteq> Some target)
               \<and> update_status_loop store target new
                   = Inr (store[i := setitem (store ! i) ''Status'' new], True)))
       \<and> ((\<forall>r\<in>set store. map_of r ''ID'' \<noteq> Some target) \<longrightarrow>
            update_status_loop store target new = Inr (store, False))
       \<and> (\<forall>r k. map_of (setitem r ''Status'' new) k
                   = (if k = ''Status'' then Some new else map_of r k))
       \<and> (\<forall>r. ''Status'' \<in> fst ` set r \<longrightarrow>
                 map fst (setitem r ''Status'' new) = map fst r)"
  using update_status_loop_found[OF assms, of target new]
    update_status_loop_not_found[OF assms, of target new]
  by (simp add: map_of_setitem keys_setitem)


theorem update_status_in_place_witness:
  "list_all (\<lambda>r. map_of r ''ID'' \<noteq> None)
     [[(''ID'', PyStr ''AE001''), (''Title'', PyStr ''a''), (''Status'', PyStr ''Draft'')],
      [(''ID'', PyStr ''AE002''), (''Title'', PyStr ''b''), (''Status'', PyStr ''Draft'')]]
   \<and> update_status_loop
         [[(''ID'', PyStr ''AE001''), (''Title'', PyStr ''a''), (''Status'', PyStr ''Draft'')],
          [(''ID'', PyStr ''AE002''), (''Title'', PyStr ''b''), (''Status'', PyStr ''Draft'')]]
         (PyStr ''AE002'') (PyStr ''Completed'')
       = Inr ([[(''ID'', PyStr ''AE001''), (''Title'', PyStr ''a''), (''Status'', PyStr ''Draft'')],
               [(''ID'', PyStr ''AE002''), (''Title'', PyStr ''b''), (''Status'', PyStr ''Completed'')]],
              True)
   \<and> update_status_loop
         [[(''ID'', PyStr ''AE001''), (''Title'', PyStr ''a''), (''Status'', PyStr ''Draft'')],
          [(''ID'', PyStr ''AE002''), (''Title'', PyStr ''b''), (''Status'', PyStr ''Draft'')]]
         (PyStr ''AE003'') (PyStr ''Completed'')
       = Inr ([[(''ID'', PyStr ''AE001''), (''Title'', PyStr ''a''), (''Status'', PyStr ''Draft'')],
               [(''ID'', PyStr ''AE002''), (''Title'', PyStr ''b''), (''Status'', PyStr ''Draft'')]],
              False)"
proof -
  let ?r1 = "[(''ID'', PyStr ''AE001''), (''Title'', PyStr ''a''), (''Status'', PyStr ''Draft'')]"
  let ?r2 = "[(''ID'', PyStr ''AE002''), (''Title'', PyStr ''b''), (''Status'', PyStr ''Draft'')]"
  let ?S = "[?r1, ?r2]"
  have h: "\<forall>r\<in>set ?S. map_of r ''ID'' \<noteq> None" by simp
  have ex: "\<exists>r\<in>set ?S. map_of r ''ID'' = Some (PyStr ''AE002'')" by simp
  have nex: "\<forall>r\<in>set ?S. map_of r ''ID'' \<noteq> Some (PyStr ''AE003'')" by simp
  note t = update_status_in_place[OF h]
  from t[of "PyStr ''AE002''" "PyStr ''Completed''"] ex
  obtain i where i: "i < length ?S" "map_of (?S ! i) ''ID'' = Some (PyStr ''AE002'')"
    "update_status_loop ?S (PyStr ''AE002'') (PyStr ''Completed'')
       = Inr (?S[i := setitem (?S ! i) ''Status'' (PyStr ''Completed'')], True)"
    by blast
  from i(1) have "i = 0 \<or> i = 1" by auto
  with i(2) have "i = 1" by auto
  with i(3) have found: "update_status_loop ?S (PyStr ''AE002'') (PyStr ''Completed'')
       = Inr ([?r1, [(''ID'', PyStr ''AE002''), (''Title'', PyStr ''b''), (''Status'', PyStr ''Completed'')]], True)"
    by (simp add: setitem_def)
  from t[of "PyStr ''AE003''" "PyStr ''Completed''"] nex
  have missing: "update_status_loop ?S (PyStr ''AE003'') (PyStr ''Completed'') = Inr (?S, False)"
    by blast
  have h': "list_all (\<lambda>r. map_of r ''ID'' \<noteq> None) ?S" by simp
  from h' found missing show ?thesis by (intro conjI)
qed

section \<open>Record creation: fresh identifiers, one record appended\<close>

lemma id_numbers_member:
  "id_numbers mx prefix store = Inr ns \<Longrightarrow> item \<in> set store \<Longrightarrow>
   \<exists>v t n. getitem item ''ID'' = Inr v \<and> slice_from v (length prefix) = Inr t
           \<and> py_int mx t = Inr n \<and> n \<in> set ns"
proof (induction store arbitrary: ns)
  case Nil
  then show ?case by simp
next
  case (Cons r rs)
  from Cons.prems(1) obtain v t n ms where
    r: "getitem r ''ID'' = Inr v" "slice_from v (length prefix) = Inr t" "py_int mx t = Inr n"
    and ms: "id_numbers mx prefix rs = Inr ms" and ns: "ns = n # ms"
    by (auto simp: and_then_eq_Inr)
  show ?case
  proof (cases "item = r")
    case True
    then show ?thesis using r ns by auto
  next
    case False
    with Cons.prems(2) have "item \<in> set rs" by simp
    from Cons.IH[OF ms this] show ?thesis using ns by auto
  qed
qed

lemma generate_id_fresh:
  assumes "generate_id mx prefix store = Inr new_id" "item \<in> set store"
  shows "map_of item ''ID'' \<noteq> Some (PyStr new_id)"
proof
  assume eq: "map_of item ''ID'' = Some (PyStr new_id)"
  from assms(2) have ne: "store \<noteq> []" by auto
  with assms(1) obtain ns m ds where ns: "id_numbers mx prefix store = Inr ns"
    and m: "py_max ns = Inr m" and ds: "py_str mx (m + 1) = Inr ds"
    and new: "new_id = prefix @ zfill 3 ds"
    by (auto simp: generate_id_def and_then_eq_Inr)
  have "int_of_literal is_space_unicode mx (zfill 3 ds) = Inr (m + 1)"
    using ds by (rule int_of_literal_zfill_str) (simp_all add: is_digit_not_space_unicode minus_not_space)
  with id_numbers_member[OF ns assms(2)] eq new
  have "m + 1 \<in> set ns"
    by (auto simp: getitem_def)
  moreover from this have "ns \<noteq> []" by auto
  with m have "m = Max (set ns)" by (simp add: py_max_Max)
  ultimately have "m + 1 \<le> m" using Max_ge[of "set ns" "m + 1"] by simp
  then show False by simp
qed

lemma create_failure_iff:
  "(\<exists>e. add_audit_engagement mx a1 a2 a3 a4 a5 a6 a7 a8 a9 s = Inl e)
     \<longleftrightarrow> (\<exists>e. generate_id mx ''AE'' (audit_engagements s) = Inl e)"
  by (cases "generate_id mx ''AE'' (audit_engagements s)") (simp_all add: add_audit_engagement_def)

text \<open>
  Claim C4, as amended. Each successful creation obtains its identifier from
  \<open>generate_id\<close> on its own store, and the identifier is fresh; it appends exactly
  one record, which carries that identifier and the initial status (``Draft'',
  ``Open'', ``Pending''); it leaves the other two stores unchanged and reports the
  identifier in its success message. \<open>add_audit_finding\<close> returns the identifier;
  \<open>add_audit_engagement\<close> and \<open>add_corrective_action\<close> return \<open>None\<close>.
\<close>

theorem create_appends_one_record:
  "(add_audit_engagement max_str_digits title department audit_type auditors auditees start_date end_date
      report_name report_data s = Inr r \<longrightarrow>
     (\<exists>new_id. generate_id max_str_digits ''AE'' (audit_engagements s) = Inr new_id
        \<and> (\<forall>item\<in>set (audit_engagements s). map_of item ''ID'' \<noteq> Some (PyStr new_id))
        \<and> (\<exists>record. audit_engagements (state r) = audit_engagements s @ [record]
              \<and> map_of record ''ID'' = Some (PyStr new_id)
              \<and> map_of record ''Status'' = Some (PyStr ''Draft'')
              \<and> map_of record ''Title'' = Some title)
        \<and> audit_findings (state r) = audit_findings s
        \<and> corrective_actions (state r) = corrective_actions s
        \<and> shown r = [Success [Lit (''Audit Engagement '' @ [CHR 0x27]), Val title,
                              Lit (CHR 0x27 # '' created with ID: ''), Val (PyStr new_id)]]
        \<and> returned r = PyNone))
 \<and> (add_audit_finding max_str_digits engagement_id category description risk_level root_cause recommendation
      evidence_name evidence_data s = Inr r \<longrightarrow>
     (\<exists>new_id. generate_id max_str_digits ''F'' (audit_findings s) = Inr new_id
        \<and> (\<forall>item\<in>set (audit_findings s). map_of item ''ID'' \<noteq> Some (PyStr new_id))
        \<and> (\<exists>record. audit_findings (state r) = audit_findings s @ [record]
              \<and> map_of record ''ID'' = Some (PyStr new_id)
              \<and> map_of record ''Status'' = Some (PyStr ''Open'')
              \<and> map_of record ''Audit Engagement ID'' = Some engagement_id)
        \<and> audit_engagements (state r) = audit_engagements s
        \<and> corrective_actions (state r) = corrective_actions s
        \<and> shown r = [Success [Lit (''Audit Finding '' @ [CHR 0x27]), Val (PyStr new_id),
                              Lit (CHR 0x27 # '' added to Engagement ''), Val engagement_id]]
        \<and> returned r = PyStr new_id))
 \<and> (add_corrective_action max_str_digits finding_id responsible_person action_description due_date
      follow_up_name follow_up_data s = Inr r \<longrightarrow>
     (\<exists>new_id. generate_id max_str_digits ''CA'' (corrective_actions s) = Inr new_id
        \<and> (\<forall>item\<in>set (corrective_actions s). map_of item ''ID'' \<noteq> Some (PyStr new_id))
        \<and> (\<exists>record. corrective_actions (state r) = corrective_actions s @ [record]
              \<and> map_of record ''ID'' = Some (PyStr new_id)
              \<and> map_of record ''Status'' = Some (PyStr ''Pending'')
              \<and> map_of record ''Finding ID'' = Some finding_id)
        \<and> audit_engagements (state r) = audit_engagements s
        \<and> audit_findings (state r) = audit_findings s
        \<and> shown r = [Success [Lit (''Corrective Action '' @ [CHR 0x27]), Val (PyStr new_id),
                              Lit (CHR 0x27 # '' added for Finding ''), Val finding_id]]
        \<and> returned r = PyNone))"
proof (intro conjI impI)
  assume a: "add_audit_engagement max_str_digits title department audit_type auditors auditees start_date
      end_date report_name report_data s = Inr r"
  then obtain new_id where g: "generate_id max_str_digits ''AE'' (audit_engagements s) = Inr new_id"
    by (auto simp: add_audit_engagement_def and_then_eq_Inr)
  have "\<forall>item\<in>set (audit_engagements s). map_of item ''ID'' \<noteq> Some (PyStr new_id)"
    using generate_id_fresh[OF g] by blast
  then show "\<exists>new_id. generate_id max_str_digits ''AE'' (audit_engagements s) = Inr new_id
        \<and> (\<forall>item\<in>set (audit_engagements s). map_of item ''ID'' \<noteq> Some (PyStr new_id))
        \<and> (\<exists>record. audit_engagements (state r) = audit_engagements s @ [record]
              \<and> map_of record ''ID'' = Some (PyStr new_id)
              \<and> map_of record ''Status'' = Some (PyStr ''Draft'')
              \<and> map_of record ''Title'' = Some title)
        \<and> audit_findings (state r) = audit_findings s
        \<and> corrective_actions (state r) = corrective_actions s
        \<and> shown r = [Success [Lit (''Audit Engagement '' @ [CHR 0x27]), Val title,
                              Lit (CHR 0x27 # '' created with ID: ''), Val (PyStr new_id)]]
        \<and> returned r = PyNone"
    using a g by (intro exI[of _ new_id]) (auto simp: add_audit_engagement_def)
next
  assume a: "add_audit_finding max_str_digits engagement_id category description risk_level root_cause
      recommendation evidence_name evidence_data s = Inr r"
  then obtain new_id where g: "generate_id max_str_digits ''F'' (audit_findings s) = Inr new_id"
    by (auto simp: add_audit_finding_def and_then_eq_Inr)
  have "\<forall>item\<in>set (audit_findings s). map_of item ''ID'' \<noteq> Some (PyStr new_id)"
    using generate_id_fresh[OF g] by blast
  then show "\<exists>new_id. generate_id max_str_digits ''F'' (audit_findings s) = Inr new_id
        \<and> (\<forall>item\<in>set (audit_findings s). map_of item ''ID'' \<noteq> Some (PyStr new_id))
        \<and> (\<exists>record. audit_findings (state r) = audit_findings s @ [record]
              \<and> map_of record ''ID'' = Some (PyStr new_id)
              \<and> map_of record ''Status'' = Some (PyStr ''Open'')
              \<and> map_of record ''Audit Engagement ID'' = Some engagement_id)
        \<and> audit_engagements (state r) = audit_engagements s
        \<and> corrective_actions (state r) = corrective_actions s
        \<and> shown r = [Success [Lit (''Audit Finding '' @ [CHR 0x27]), Val (PyStr new_id),
                              Lit (CHR 0x27 # '' added to Engagement ''), Val engagement_id]]
        \<and> returned r = PyStr new_id"
    using a g by (intro exI[of _ new_id]) (auto simp: add_audit_finding_def)
next
  assume a: "add_corrective_action max_str_digits finding_id responsible_person action_description due_date
      follow_up_name follow_up_data s = Inr r"
  then obtain new_id where g: "generate_id max_str_digits ''CA'' (corrective_actions s) = Inr new_id"
    by (auto simp: add_corrective_action_def and_then_eq_Inr)
  have "\<forall>item\<in>set (corrective_actions s). map_of item ''ID'' \<noteq> Some (PyStr new_id)"
    using generate_id_fresh[OF g] by blast
  then show "\<exists>new_id. generate_id max_str_digits ''CA'' (corrective_actions s) = Inr new_id
        \<and> (\<forall>item\<in>set (corrective_actions s). map_of item ''ID'' \<noteq> Some (PyStr new_id))
        \<and> (\<exists>record. corrective_actions (state r) = corrective_actions s @ [record]
              \<and> map_of record ''ID'' = Some (PyStr new_id)
              \<and> map_of record ''Status'' = Some (PyStr ''Pending'')
              \<and> map_of record ''Finding ID'' = Some finding_id)
        \<and> audit_engagements (state r) = audit_engagements s
        \<and> audit_findings (state r) = audit_findings s
        \<and> shown r = [Success [Lit (''Corrective Action '' @ [CHR 0x27]), Val (PyStr new_id),
                              Lit (CHR 0x27 # '' added for Finding ''), Val finding_id]]
        \<and> returned r = PyNone"
    using a g by (intro exI[of _ new_id]) (auto simp: add_corrective_action_def)
qed

theorem create_appends_one_record_witness:
  "map_sum id returned
     (add_audit_engagement 4300 (PyStr ''Annual IT Audit'') (PyStr ''IT'') (PyStr ''IT'')
        (PyStr ''John'') (PyStr ''Emily'') (PyDate 739000) (PyDate 739030) PyNone PyNone
        initial_state) = Inr PyNone
   \<and> map_sum id returned
     (add_audit_finding 4300 (PyStr ''AE001'') (PyStr ''Major'') (PyStr ''No backups'')
        (PyStr ''High'') (PyStr '''') (PyStr '''') PyNone PyNone initial_state)
       = Inr (PyStr ''F001'')
   \<and> map_sum id returned
     (add_corrective_action 4300 (PyStr ''F001'') (PyStr ''Ann'') (PyStr ''Fix'') (PyDate 739014)
        PyNone PyNone initial_state) = Inr PyNone"
proof -
  note t = create_appends_one_record[where max_str_digits = 4300]
  obtain r1 where r1: "add_audit_engagement 4300 (PyStr ''Annual IT Audit'') (PyStr ''IT'') (PyStr ''IT'')
        (PyStr ''John'') (PyStr ''Emily'') (PyDate 739000) (PyDate 739030) PyNone PyNone
        initial_state = Inr r1"
    by (simp add: add_audit_engagement_def generate_id_def initial_state_def)
  from t[THEN conjunct1, rule_format, OF r1] have 1: "returned r1 = PyNone" by blast
  obtain r2 where r2: "add_audit_finding 4300 (PyStr ''AE001'') (PyStr ''Major'') (PyStr ''No backups'')
        (PyStr ''High'') (PyStr '''') (PyStr '''') PyNone PyNone initial_state = Inr r2"
    by (simp add: add_audit_finding_def generate_id_def initial_state_def)
  from t[THEN conjunct2, THEN conjunct1, rule_format, OF r2]
  obtain new_id where "generate_id 4300 ''F'' (audit_findings initial_state) = Inr new_id"
    "returned r2 = PyStr new_id" by blast
  then have 2: "returned r2 = PyStr ''F001''"
    by (simp add: generate_id_def initial_state_def)
  obtain r3 where r3: "add_corrective_action 4300 (PyStr ''F001'') (PyStr ''Ann'') (PyStr ''Fix'')
        (PyDate 739014) PyNone PyNone initial_state = Inr r3"
    by (simp add: add_corrective_action_def generate_id_def initial_state_def)
  from t[THEN conjunct2, THEN conjunct2, rule_format, OF r3] have 3: "returned r3 = PyNone" by blast
  show ?thesis unfolding r1 r2 r3 using 1 2 3 by simp
qed

text \<open>
  Claim C4 as stated fails: creating the first engagement generates \<open>AE001\<close>, and the
  call returns \<open>None\<close>.
\<close>

theorem create_returns_id_counterexample:
  "generate_id 4300 ''AE'' (audit_engagements initial_state) = Inr ''AE001''
   \<and> map_sum id returned
     (add_audit_engagement 4300 (PyStr ''Annual IT Audit'') (PyStr ''IT'') (PyStr ''IT'')
        (PyStr ''John'') (PyStr ''Emily'') (PyDate 739000) (PyDate 739030) PyNone PyNone
        initial_state) \<noteq> Inr (PyStr ''AE001'')
   \<and> map_sum id returned
     (add_audit_engagement 4300 (PyStr ''Annual IT Audit'') (PyStr ''IT'') (PyStr ''IT'')
        (PyStr ''John'') (PyStr ''Emily'') (PyDate 739000) (PyDate 739030) PyNone PyNone
        initial_state) = Inr PyNone"
  by (simp add: add_audit_engagement_def generate_id_def initial_state_def)

section \<open>Required fields\<close>

lemma update_values: "snd ` set (AList.update k v al) \<subseteq> insert v (snd ` set al)"
  by (induction al) auto

text \<open>
  When every record of the parent store has an identifier and the label, the options of
  the select box are built without an exception, and no option is the empty text.
\<close>

lemma available_options_ok:
  assumes "\<forall>r\<in>set store. map_of r ''ID'' \<noteq> None \<and> map_of r label \<noteq> None"
    and "\<forall>d\<in>snd ` set acc. d \<noteq> []"
  shows "\<exists>available. available_options fmt label store acc = Inr available
           \<and> (store \<noteq> [] \<longrightarrow> available \<noteq> [])
           \<and> (\<forall>d\<in>snd ` set available. d \<noteq> [])"
  using assms
proof (induction store arbitrary: acc)
  case Nil
  then show ?case by simp
next
  case (Cons r rs)
  from Cons.prems(1) obtain k t where kt: "map_of r ''ID'' = Some k" "map_of r label = Some t"
    by auto
  let ?acc = "AList.update k (fmt k @ '' - '' @ fmt t) acc"
  have acc: "\<forall>d\<in>snd ` set ?acc. d \<noteq> []"
  proof
    fix d assume "d \<in> snd ` set ?acc"
    then have "d \<in> insert (fmt k @ '' - '' @ fmt t) (snd ` set acc)"
      using update_values[of k "fmt k @ '' - '' @ fmt t" acc] by blast
    then show "d \<noteq> []" using Cons.prems(2) by auto
  qed
  with Cons.IH[of ?acc] Cons.prems(1) obtain available where
    a: "available_options fmt label rs ?acc = Inr available"
    "\<forall>d\<in>snd ` set available. d \<noteq> []"
    by auto
  have "available \<noteq> []"
  proof (cases rs)
    case Nil
    with a(1) show ?thesis by auto
  next
    case (Cons r' rs')
    with Cons.IH[of ?acc] Cons.prems(1) acc a(1)
    show ?thesis by auto
  qed
  with a kt show ?case by (simp add: getitem_def)
qed

lemma selected_key_ok:
  assumes "item \<in> set available" "snd item \<noteq> []"
  shows "\<exists>sel. selected_key available (PyStr (snd item)) = Inr sel"
proof -
  have "filter (\<lambda>i. PyStr (snd i) = PyStr (snd item)) available \<noteq> []"
    using assms(1) by (auto simp: filter_empty_conv)
  then show ?thesis using assms(2)
    by (cases "filter (\<lambda>i. PyStr (snd i) = PyStr (snd item)) available")
      (simp_all add: selected_key_def)
qed

text \<open>
  Claim C5, as amended. When a required field of a form is absent (an empty string or
  \<open>None\<close>), the form's submit handler shows the required-fields error and returns
  normally, without raising and without calling the creation: the session state it
  leaves is the state it was given. For the finding and the corrective-action form this
  is for a parent store that is not empty and whose records have an identifier and a
  title (a description), and for every option that the select box offers. Validation is
  done by the submit handlers only.
\<close>

theorem missing_required_field_rejected:
  "(\<not> (truthy ae_title \<and> truthy ae_department \<and> truthy ae_auditors) \<longrightarrow>
      submit_audit_engagement_form max_str_digits ae_title ae_department ae_audit_type
        ae_auditors ae_auditees ae_start_date ae_end_date ae_report_file s
      = Inr \<lparr>returned = PyNone,
             shown = [Error ''Please fill in all required fields (Title, Department, Auditors).''],
             state = s\<rparr>)
 \<and> (audit_engagements s \<noteq> []
      \<and> (\<forall>r\<in>set (audit_engagements s). map_of r ''ID'' \<noteq> None \<and> map_of r ''Title'' \<noteq> None)
      \<and> \<not> (truthy find_description \<and> truthy find_risk_level) \<longrightarrow>
      (\<exists>available. available_options fmt ''Title'' (audit_engagements s) [] = Inr available
         \<and> available \<noteq> []
         \<and> (\<forall>option\<in>set available.
               submit_audit_finding_form max_str_digits fmt (PyStr (snd option)) find_category
                 find_description find_evidence_file find_risk_level find_root_cause
                 find_recommendation s
               = Inr \<lparr>returned = PyNone,
                      shown = [Error ''Please fill in all required fields (Engagement, Description, Risk Level).''],
                      state = s\<rparr>)))
 \<and> (audit_findings s \<noteq> []
      \<and> (\<forall>r\<in>set (audit_findings s). map_of r ''ID'' \<noteq> None \<and> map_of r ''Description'' \<noteq> None)
      \<and> \<not> (truthy ca_responsible_person \<and> truthy ca_description \<and> truthy ca_due_date) \<longrightarrow>
      (\<exists>available. available_options fmt ''Description'' (audit_findings s) [] = Inr available
         \<and> available \<noteq> []
         \<and> (\<forall>option\<in>set available.
               submit_corrective_action_form max_str_digits fmt (PyStr (snd option))
                 ca_responsible_person ca_description ca_due_date ca_follow_up_file s
               = Inr \<lparr>returned = PyNone,
                      shown = [Error ''Please fill in all required fields (Finding, Responsible Person, Description, Due Date).''],
                      state = s\<rparr>)))
 \<and> \<not> truthy (PyStr '''') \<and> \<not> truthy PyNone"
proof (intro conjI impI)
  assume "\<not> (truthy ae_title \<and> truthy ae_department \<and> truthy ae_auditors)"
  then show "submit_audit_engagement_form max_str_digits ae_title ae_department ae_audit_type
        ae_auditors ae_auditees ae_start_date ae_end_date ae_report_file s
      = Inr \<lparr>returned = PyNone,
             shown = [Error ''Please fill in all required fields (Title, Department, Auditors).''],
             state = s\<rparr>"
    by (auto simp: submit_audit_engagement_form_def Let_def)
next
  assume a: "audit_engagements s \<noteq> []
      \<and> (\<forall>r\<in>set (audit_engagements s). map_of r ''ID'' \<noteq> None \<and> map_of r ''Title'' \<noteq> None)
      \<and> \<not> (truthy find_description \<and> truthy find_risk_level)"
  then obtain available where
    av: "available_options fmt ''Title'' (audit_engagements s) [] = Inr available"
    "available \<noteq> []" "\<forall>d\<in>snd ` set available. d \<noteq> []"
    using available_options_ok[of "audit_engagements s" "''Title''" "[]" fmt] by auto
  have "submit_audit_finding_form max_str_digits fmt (PyStr (snd option)) find_category
          find_description find_evidence_file find_risk_level find_root_cause
          find_recommendation s
        = Inr \<lparr>returned = PyNone,
               shown = [Error ''Please fill in all required fields (Engagement, Description, Risk Level).''],
               state = s\<rparr>" if "option \<in> set available" for option
  proof -
    from that av(3) have "snd option \<noteq> []" by auto
    from selected_key_ok[OF that this] obtain sel where
      "selected_key available (PyStr (snd option)) = Inr sel" ..
    then show ?thesis using a av(1)
      by (auto simp: submit_audit_finding_form_def Let_def)
  qed
  with av(1,2) show "\<exists>available. available_options fmt ''Title'' (audit_engagements s) [] = Inr available
         \<and> available \<noteq> []
         \<and> (\<forall>option\<in>set available.
               submit_audit_finding_form max_str_digits fmt (PyStr (snd option)) find_category
                 find_description find_evidence_file find_risk_level find_root_cause
                 find_recommendation s
               = Inr \<lparr>returned = PyNone,
                      shown = [Error ''Please fill in all required fields (Engagement, Description, Risk Level).''],
                      state = s\<rparr>)"
    by blast
next
  assume a: "audit_findings s \<noteq> []
      \<and> (\<forall>r\<in>set (audit_findings s). map_of r ''ID'' \<noteq> None \<and> map_of r ''Description'' \<noteq> None)
      \<and> \<not> (truthy ca_responsible_person \<and> truthy ca_description \<and> truthy ca_due_date)"
  then obtain available where
    av: "available_options fmt ''Description'' (audit_findings s) [] = Inr available"
    "available \<noteq> []" "\<forall>d\<in>snd ` set available. d \<noteq> []"
    using available_options_ok[of "audit_findings s" "''Description''" "[]" fmt] by auto
  have "submit_corrective_action_form max_str_digits fmt (PyStr (snd option))
          ca_responsible_person ca_description ca_due_date ca_follow_up_file s
        = Inr \<lparr>returned = PyNone,
               shown = [Error ''Please fill in all required fields (Finding, Responsible Person, Description, Due Date).''],
               state = s\<rparr>" if "option \<in> set available" for option
  proof -
    from that av(3) have "snd option \<noteq> []" by auto
    from selected_key_ok[OF that this] obtain sel where
      "selected_key available (PyStr (snd option)) = Inr sel" ..
    then show ?thesis using a av(1)
      by (auto simp: submit_corrective_action_form_def Let_def)
  qed
  with av(1,2) show "\<exists>available. available_options fmt ''Description'' (audit_findings s) [] = Inr available
         \<and> available \<noteq> []
         \<and> (\<forall>option\<in>set available.
               submit_corrective_action_form max_str_digits fmt (PyStr (snd option))
                 ca_responsible_person ca_description ca_due_date ca_follow_up_file s
               = Inr \<lparr>returned = PyNone,
                      shown = [Error ''Please fill in all required fields (Finding, Responsible Person, Description, Due Date).''],
                      state = s\<rparr>)"
    by blast
qed simp_all

theorem missing_required_field_rejected_witness:
  "map_sum id state
     (add_audit_engagement 4300 (PyStr ''Annual IT Audit'') (PyStr ''IT'') (PyStr ''IT'')
        (PyStr ''John'') (PyStr ''Emily'') (PyDate 739000) (PyDate 739030) PyNone PyNone
        initial_state)
   = Inr \<lparr>audit_engagements =
            [[(''ID'', PyStr ''AE001''), (''Title'', PyStr ''Annual IT Audit''),
              (''Department'', PyStr ''IT''), (''Audit Type'', PyStr ''IT''),
              (''Auditor(s)'', PyStr ''John''), (''Auditee(s)'', PyStr ''Emily''),
              (''Start Date'', PyDate 739000), (''End Date'', PyDate 739030),
              (''Status'', PyStr ''Draft''), (''Audit Report Name'', PyNone),
              (''Audit Report Data'', PyNone)]],
          audit_findings = [], corrective_actions = []\<rparr>
 \<and> map_sum id state
     (add_audit_finding 4300 (PyStr ''AE001'') (PyStr ''Major'') (PyStr ''No backups'')
        (PyStr ''High'') (PyStr '''') (PyStr '''') PyNone PyNone
        \<lparr>audit_engagements =
            [[(''ID'', PyStr ''AE001''), (''Title'', PyStr ''Annual IT Audit''),
              (''Department'', PyStr ''IT''), (''Audit Type'', PyStr ''IT''),
              (''Auditor(s)'', PyStr ''John''), (''Auditee(s)'', PyStr ''Emily''),
              (''Start Date'', PyDate 739000), (''End Date'', PyDate 739030),
              (''Status'', PyStr ''Draft''), (''Audit Report Name'', PyNone),
              (''Audit Report Data'', PyNone)]],
          audit_findings = [], corrective_actions = []\<rparr>)
   = Inr \<lparr>audit_engagements =
            [[(''ID'', PyStr ''AE001''), (''Title'', PyStr ''Annual IT Audit''),
              (''Department'', PyStr ''IT''), (''Audit Type'', PyStr ''IT''),
              (''Auditor(s)'', PyStr ''John''), (''Auditee(s)'', PyStr ''Emily''),
              (''Start Date'', PyDate 739000), (''End Date'', PyDate 739030),
              (''Status'', PyStr ''Draft''), (''Audit Report Name'', PyNone),
              (''Audit Report Data'', PyNone)]],
          audit_findings =
            [[(''ID'', PyStr ''F001''), (''Audit Engagement ID'', PyStr ''AE001''),
              (''Category'', PyStr ''Major''), (''Description'', PyStr ''No backups''),
              (''Evidence Name'', PyNone), (''Evidence Data'', PyNone),
              (''Risk Level'', PyStr ''High''), (''Root Cause'', PyStr ''''),
              (''Recommendation'', PyStr ''''), (''Status'', PyStr ''Open'')]],
          corrective_actions = []\<rparr>
 \<and> submit_audit_engagement_form 4300 (PyStr '''') (PyStr ''IT'') (PyStr ''IT'') (PyStr ''John'')
     (PyStr '''') (PyDate 739000) (PyDate 739030) None initial_state
   = Inr \<lparr>returned = PyNone,
          shown = [Error ''Please fill in all required fields (Title, Department, Auditors).''],
          state = initial_state\<rparr>
 \<and> submit_audit_finding_form 4300 (\<lambda>v. case v of PyStr t \<Rightarrow> t | _ \<Rightarrow> ''None'')
     (PyStr ''AE001 - Annual IT Audit'') (PyStr ''Major'') (PyStr '''') None (PyStr ''Low'')
     (PyStr '''') (PyStr '''')
     \<lparr>audit_engagements =
        [[(''ID'', PyStr ''AE001''), (''Title'', PyStr ''Annual IT Audit''),
          (''Department'', PyStr ''IT''), (''Audit Type'', PyStr ''IT''),
          (''Auditor(s)'', PyStr ''John''), (''Auditee(s)'', PyStr ''Emily''),
          (''Start Date'', PyDate 739000), (''End Date'', PyDate 739030),
          (''Status'', PyStr ''Draft''), (''Audit Report Name'', PyNone),
          (''Audit Report Data'', PyNone)]],
      audit_findings = [], corrective_actions = []\<rparr>
   = Inr \<lparr>returned = PyNone,
          shown = [Error ''Please fill in all required fields (Engagement, Description, Risk Level).''],
          state = \<lparr>audit_engagements =
            [[(''ID'', PyStr ''AE001''), (''Title'', PyStr ''Annual IT Audit''),
              (''Department'', PyStr ''IT''), (''Audit Type'', PyStr ''IT''),
              (''Auditor(s)'', PyStr ''John''), (''Auditee(s)'', PyStr ''Emily''),
              (''Start Date'', PyDate 739000), (''End Date'', PyDate 739030),
              (''Status'', PyStr ''Draft''), (''Audit Report Name'', PyNone),
              (''Audit Report Data'', PyNone)]],
          audit_findings = [], corrective_actions = []\<rparr>\<rparr>
 \<and> submit_corrective_action_form 4300 (\<lambda>v. case v of PyStr t \<Rightarrow> t | _ \<Rightarrow> ''None'')
     (PyStr ''F001 - No backups'') (PyStr '''') (PyStr ''Fix'') (PyDate 739014) None
     \<lparr>audit_engagements =
        [[(''ID'', PyStr ''AE001''), (''Title'', PyStr ''Annual IT Audit''),
          (''Department'', PyStr ''IT''), (''Audit Type'', PyStr ''IT''),
          (''Auditor(s)'', PyStr ''John''), (''Auditee(s)'', PyStr ''Emily''),
          (''Start Date'', PyDate 739000), (''End Date'', PyDate 739030),
          (''Status'', PyStr ''Draft''), (''Audit Report Name'', PyNone),
          (''Audit Report Data'', PyNone)]],
      audit_findings =
        [[(''ID'', PyStr ''F001''), (''Audit Engagement ID'', PyStr ''AE001''),
          (''Category'', PyStr ''Major''), (''Description'', PyStr ''No backups''),
          (''Evidence Name'', PyNone), (''Evidence Data'', PyNone),
          (''Risk Level'', PyStr ''High''), (''Root Cause'', PyStr ''''),
          (''Recommendation'', PyStr ''''), (''Status'', PyStr ''Open'')]],
      corrective_actions = []\<rparr>
   = Inr \<lparr>returned = PyNone,
          shown = [Error ''Please fill in all required fields (Finding, Responsible Person, Description, Due Date).''],
          state = \<lparr>audit_engagements =
            [[(''ID'', PyStr ''AE001''), (''Title'', PyStr ''Annual IT Audit''),
              (''Department'', PyStr ''IT''), (''Audit Type'', PyStr ''IT''),
              (''Auditor(s)'', PyStr ''John''), (''Auditee(s)'', PyStr ''Emily''),
              (''Start Date'', PyDate 739000), (''End Date'', PyDate 739030),
              (''Status'', PyStr ''Draft''), (''Audit Report Name'', PyNone),
              (''Audit Report Data'', PyNone)]],
          audit_findings =
            [[(''ID'', PyStr ''F001''), (''Audit Engagement ID'', PyStr ''AE001''),
              (''Category'', PyStr ''Major''), (''Description'', PyStr ''No backups''),
              (''Evidence Name'', PyNone), (''Evidence Data'', PyNone),
              (''Risk Level'', PyStr ''High''), (''Root Cause'', PyStr ''''),
              (''Recommendation'', PyStr ''''), (''Status'', PyStr ''Open'')]],
          corrective_actions = []\<rparr>\<rparr>"
proof -
  let ?e = "[(''ID'', PyStr ''AE001''), (''Title'', PyStr ''Annual IT Audit''),
              (''Department'', PyStr ''IT''), (''Audit Type'', PyStr ''IT''),
              (''Auditor(s)'', PyStr ''John''), (''Auditee(s)'', PyStr ''Emily''),
              (''Start Date'', PyDate 739000), (''End Date'', PyDate 739030),
              (''Status'', PyStr ''Draft''), (''Audit Report Name'', PyNone),
              (''Audit Report Data'', PyNone)]"
  let ?f = "[(''ID'', PyStr ''F001''), (''Audit Engagement ID'', PyStr ''AE001''),
              (''Category'', PyStr ''Major''), (''Description'', PyStr ''No backups''),
              (''Evidence Name'', PyNone), (''Evidence Data'', PyNone),
              (''Risk Level'', PyStr ''High''), (''Root Cause'', PyStr ''''),
              (''Recommendation'', PyStr ''''), (''Status'', PyStr ''Open'')]"
  let ?s1 = "\<lparr>audit_engagements = [?e], audit_findings = [], corrective_actions = []\<rparr>"
  let ?s2 = "\<lparr>audit_engagements = [?e], audit_findings = [?f], corrective_actions = []\<rparr>"
  let ?fmt = "\<lambda>v. case v of PyStr t \<Rightarrow> t | _ \<Rightarrow> ''None''"
  note t = missing_required_field_rejected
  have b1: "map_sum id state
     (add_audit_engagement 4300 (PyStr ''Annual IT Audit'') (PyStr ''IT'') (PyStr ''IT'')
        (PyStr ''John'') (PyStr ''Emily'') (PyDate 739000) (PyDate 739030) PyNone PyNone
        initial_state) = Inr ?s1"
    by (simp add: add_audit_engagement_def generate_id_def initial_state_def)
  have b2: "map_sum id state
     (add_audit_finding 4300 (PyStr ''AE001'') (PyStr ''Major'') (PyStr ''No backups'')
        (PyStr ''High'') (PyStr '''') (PyStr '''') PyNone PyNone ?s1) = Inr ?s2"
    by (simp add: add_audit_finding_def generate_id_def)
  have h1: "\<not> (truthy (PyStr '''') \<and> truthy (PyStr ''IT'') \<and> truthy (PyStr ''John''))" by simp
  have c1: "submit_audit_engagement_form 4300 (PyStr '''') (PyStr ''IT'') (PyStr ''IT'')
     (PyStr ''John'') (PyStr '''') (PyDate 739000) (PyDate 739030) None initial_state
   = Inr \<lparr>returned = PyNone,
          shown = [Error ''Please fill in all required fields (Title, Department, Auditors).''],
          state = initial_state\<rparr>"
    by (rule t[THEN conjunct1, rule_format, OF h1])
  have h2: "audit_engagements ?s1 \<noteq> []
      \<and> (\<forall>r\<in>set (audit_engagements ?s1). map_of r ''ID'' \<noteq> None \<and> map_of r ''Title'' \<noteq> None)
      \<and> \<not> (truthy (PyStr '''') \<and> truthy (PyStr ''Low''))" by simp
  have o2: "available_options ?fmt ''Title'' (audit_engagements ?s1) []
            = Inr [(PyStr ''AE001'', ''AE001 - Annual IT Audit'')]"
    by (simp add: getitem_def)
  from t[where s = ?s1 and fmt = ?fmt and max_str_digits = 4300,
      THEN conjunct2, THEN conjunct1, rule_format, OF h2] o2
  have c2: "submit_audit_finding_form 4300 ?fmt (PyStr ''AE001 - Annual IT Audit'') (PyStr ''Major'')
       (PyStr '''') None (PyStr ''Low'') (PyStr '''') (PyStr '''') ?s1
     = Inr \<lparr>returned = PyNone,
          shown = [Error ''Please fill in all required fields (Engagement, Description, Risk Level).''],
          state = ?s1\<rparr>"
    by auto
  have h3: "audit_findings ?s2 \<noteq> []
      \<and> (\<forall>r\<in>set (audit_findings ?s2). map_of r ''ID'' \<noteq> None \<and> map_of r ''Description'' \<noteq> None)
      \<and> \<not> (truthy (PyStr '''') \<and> truthy (PyStr ''Fix'') \<and> truthy (PyDate 739014))" by simp
  have o3: "available_options ?fmt ''Description'' (audit_findings ?s2) []
            = Inr [(PyStr ''F001'', ''F001 - No backups'')]"
    by (simp add: getitem_def)
  from t[where s = ?s2 and fmt = ?fmt and max_str_digits = 4300,
      THEN conjunct2, THEN conjunct2, THEN conjunct1, rule_format, OF h3] o3
  have c3: "submit_corrective_action_form 4300 ?fmt (PyStr ''F001 - No backups'') (PyStr '''')
       (PyStr ''Fix'') (PyDate 739014) None ?s2
     = Inr \<lparr>returned = PyNone,
          shown = [Error ''Please fill in all required fields (Finding, Responsible Person, Description, Due Date).''],
          state = ?s2\<rparr>"
    by auto
  from b1 b2 c1 c2 c3 show ?thesis by (intro conjI)
qed

text \<open>
  Claim C5 as stated fails: the creation itself validates nothing. Called with an empty
  title, \<open>add_audit_engagement\<close> raises nothing and the store grows from no record to one.
\<close>

theorem create_without_validation_counterexample:
  "\<not> truthy (PyStr '''')
   \<and> length (audit_engagements initial_state) = 0
   \<and> map_sum id (length \<circ> audit_engagements \<circ> state)
       (add_audit_engagement 4300 (PyStr '''') (PyStr ''IT'') (PyStr ''IT'') (PyStr ''John'')
          (PyStr ''Emily'') (PyDate 739000) (PyDate 739030) PyNone PyNone initial_state)
     = Inr 1"
  by (simp add: add_audit_engagement_def generate_id_def initial_state_def)

section \<open>Overdue corrective actions\<close>

lemma overdue_actions_filter:
  "\<forall>ca\<in>set store. action_record ca \<Longrightarrow>
   overdue_actions store today = Inr (length (filter (overdue_on today) store))"
proof (induction store)
  case Nil
  then show ?case by simp
next
  case (Cons ca cas)
  from Cons.prems obtain st d where
    ca: "map_of ca ''Status'' = Some st" "map_of ca ''Due Date'' = Some (PyDate d)"
    by (auto simp: action_record_def split: option.splits pyval.splits)
  from Cons have IH: "overdue_actions cas today = Inr (length (filter (overdue_on today) cas))"
    by simp
  have o: "overdue_on today ca \<longleftrightarrow> st \<noteq> PyStr ''Verified'' \<and> st \<noteq> PyStr ''Closed'' \<and> d < today"
    using ca by (simp add: overdue_on_def)
  show ?case using ca by (simp add: IH getitem_def o)
qed

text \<open>
  Claim C7. On a store of corrective actions, for every query date, the dashboard's
  overdue count is the number of records whose status is neither ``Verified'' nor
  ``Closed'' and whose due date is strictly before the query date. A pending action due
  the day before is counted; a closed one with the same due date is not.
\<close>

theorem overdue_count:
  assumes "\<forall>ca\<in>set store. action_record ca"
  shows "overdue_actions store today = Inr (length (filter (overdue_on today) store))
       \<and> overdue_on today [(''Status'', PyStr ''Pending''), (''Due Date'', PyDate (today - 1))]
       \<and> overdue_actions [[(''Status'', PyStr ''Pending''), (''Due Date'', PyDate (today - 1))]] today
           = Inr 1
       \<and> \<not> overdue_on today [(''Status'', PyStr ''Closed''), (''Due Date'', PyDate (today - 1))]
       \<and> overdue_actions [[(''Status'', PyStr ''Closed''), (''Due Date'', PyDate (today - 1))]] today
           = Inr 0"
  using overdue_actions_filter[OF assms, of today]
  by (simp add: overdue_on_def getitem_def)

theorem overdue_count_witness:
  "list_all action_record
     [[(''ID'', PyStr ''CA001''), (''Due Date'', PyDate 738999), (''Status'', PyStr ''Pending'')],
      [(''ID'', PyStr ''CA002''), (''Due Date'', PyDate 738999), (''Status'', PyStr ''Closed'')],
      [(''ID'', PyStr ''CA003''), (''Due Date'', PyDate 739000), (''Status'', PyStr ''In Progress'')]]
   \<and> overdue_actions
     [[(''ID'', PyStr ''CA001''), (''Due Date'', PyDate 738999), (''Status'', PyStr ''Pending'')],
      [(''ID'', PyStr ''CA002''), (''Due Date'', PyDate 738999), (''Status'', PyStr ''Closed'')],
      [(''ID'', PyStr ''CA003''), (''Due Date'', PyDate 739000), (''Status'', PyStr ''In Progress'')]]
     739000 = Inr 1"
proof -
  let ?S = "[[(''ID'', PyStr ''CA001''), (''Due Date'', PyDate 738999), (''Status'', PyStr ''Pending'')],
      [(''ID'', PyStr ''CA002''), (''Due Date'', PyDate 738999), (''Status'', PyStr ''Closed'')],
      [(''ID'', PyStr ''CA003''), (''Due Date'', PyDate 739000), (''Status'', PyStr ''In Progress'')]]"
  have h: "\<forall>ca\<in>set ?S. action_record ca" by (simp add: action_record_def)
  have n: "length (filter (overdue_on 739000) ?S) = 1" by (simp add: overdue_on_def)
  from overdue_count[OF h, of 739000] have "overdue_actions ?S 739000 = Inr 1"
    unfolding n by blast
  moreover have "list_all action_record ?S" using h by (simp only: list_all_iff)
  ultimately show ?thesis by (intro conjI)
qed

section \<open>Recent activities\<close>

text \<open>
  Claim C9. After one engagement is created with an uploaded report, the dashboard's
  table of recent engagements has the column \<open>Audit Report Data\<close> with the raw bytes,
  while the ``View All'' table of the same state leaves that column out.
\<close>

theorem recent_engagements_show_report_data:
  "add_audit_engagement max_str_digits (PyStr ''Annual IT Audit'') (PyStr ''IT'') (PyStr ''IT'') (PyStr ''John'')
     (PyStr ''Emily'') (PyDate 739000) (PyDate 739030) (PyStr ''report.pdf'') (PyBytes ''%PDF'')
     initial_state
   = Inr \<lparr>returned = PyNone,
          shown = [Success [Lit (''Audit Engagement '' @ [CHR 0x27]), Val (PyStr ''Annual IT Audit''),
                            Lit (CHR 0x27 # '' created with ID: ''), Val (PyStr ''AE001'')]],
          state = \<lparr>audit_engagements =
                     [[(''ID'', PyStr ''AE001''), (''Title'', PyStr ''Annual IT Audit''),
                       (''Department'', PyStr ''IT''), (''Audit Type'', PyStr ''IT''),
                       (''Auditor(s)'', PyStr ''John''), (''Auditee(s)'', PyStr ''Emily''),
                       (''Start Date'', PyDate 739000), (''End Date'', PyDate 739030),
                       (''Status'', PyStr ''Draft''), (''Audit Report Name'', PyStr ''report.pdf''),
                       (''Audit Report Data'', PyBytes ''%PDF'')]],
                   audit_findings = [], corrective_actions = []\<rparr>\<rparr>
 \<and> recent_engagements
     \<lparr>audit_engagements =
        [[(''ID'', PyStr ''AE001''), (''Title'', PyStr ''Annual IT Audit''),
          (''Department'', PyStr ''IT''), (''Audit Type'', PyStr ''IT''),
          (''Auditor(s)'', PyStr ''John''), (''Auditee(s)'', PyStr ''Emily''),
          (''Start Date'', PyDate 739000), (''End Date'', PyDate 739030),
          (''Status'', PyStr ''Draft''), (''Audit Report Name'', PyStr ''report.pdf''),
          (''Audit Report Data'', PyBytes ''%PDF'')]],
      audit_findings = [], corrective_actions = []\<rparr>
   = Inr (Table [(PyStr ''AE001'',
                  [(''Title'', PyStr ''Annual IT Audit''),
                   (''Department'', PyStr ''IT''), (''Audit Type'', PyStr ''IT''),
                   (''Auditor(s)'', PyStr ''John''), (''Auditee(s)'', PyStr ''Emily''),
                   (''Start Date'', PyDate 739000), (''End Date'', PyDate 739030),
                   (''Status'', PyStr ''Draft''), (''Audit Report Name'', PyStr ''report.pdf''),
                   (''Audit Report Data'', PyBytes ''%PDF'')])])
 \<and> all_engagements
     \<lparr>audit_engagements =
        [[(''ID'', PyStr ''AE001''), (''Title'', PyStr ''Annual IT Audit''),
          (''Department'', PyStr ''IT''), (''Audit Type'', PyStr ''IT''),
          (''Auditor(s)'', PyStr ''John''), (''Auditee(s)'', PyStr ''Emily''),
          (''Start Date'', PyDate 739000), (''End Date'', PyDate 739030),
          (''Status'', PyStr ''Draft''), (''Audit Report Name'', PyStr ''report.pdf''),
          (''Audit Report Data'', PyBytes ''%PDF'')]],
      audit_findings = [], corrective_actions = []\<rparr>
   = Inr (Table [(PyStr ''AE001'',
                  [(''Title'', PyStr ''Annual IT Audit''),
                   (''Department'', PyStr ''IT''), (''Audit Type'', PyStr ''IT''),
                   (''Auditor(s)'', PyStr ''John''), (''Auditee(s)'', PyStr ''Emily''),
                   (''Start Date'', PyDate 739000), (''End Date'', PyDate 739030),
                   (''Status'', PyStr ''Draft''), (''Audit Report Name'', PyStr ''report.pdf'')])])"
  by (simp add: add_audit_engagement_def generate_id_def initial_state_def recent_engagements_def
      all_engagements_def tail_rows_def drop_columns_def getitem_def)

lemma set_index_rows:
  "\<forall>r\<in>set df. map_of r k \<noteq> None \<Longrightarrow>
   set_index k df = Inr (map (\<lambda>r. (the (map_of r k), AList.delete k r)) df)"
  by (induction df) (auto simp: getitem_def)

lemma recent_engagements_last_five:
  assumes "audit_engagements s \<noteq> []" "\<forall>r\<in>set (audit_engagements s). map_of r ''ID'' \<noteq> None"
  shows "recent_engagements s
         = Inr (Table (map (\<lambda>r. (the (map_of r ''ID''), AList.delete ''ID'' r))
                         (drop (length (audit_engagements s) - 5) (audit_engagements s))))"
proof -
  have "\<forall>r\<in>set (tail_rows 5 (audit_engagements s)). map_of r ''ID'' \<noteq> None"
    using assms(2) by (auto simp: tail_rows_def dest: in_set_dropD)
  then show ?thesis using assms(1) by (simp add: recent_engagements_def set_index_rows tail_rows_def)
qed

lemma recent_findings_last_five:
  assumes "audit_findings s \<noteq> []" "\<forall>r\<in>set (audit_findings s). map_of r ''ID'' \<noteq> None"
  shows "recent_findings s
         = Inr (Table (map (\<lambda>r. (the (map_of r ''ID''), AList.delete ''ID'' r))
                         (drop (length (audit_findings s) - 5) (audit_findings s))))"
proof -
  have "\<forall>r\<in>set (tail_rows 5 (audit_findings s)). map_of r ''ID'' \<noteq> None"
    using assms(2) by (auto simp: tail_rows_def dest: in_set_dropD)
  then show ?thesis using assms(1) by (simp add: recent_findings_def set_index_rows tail_rows_def)
qed

lemma recent_row_keeps_data:
  "k \<noteq> ''ID'' \<Longrightarrow> map_of (AList.delete ''ID'' r) k = map_of r k"
  by (simp add: delete_conv')


section \<open>The invariant of the stores\<close>

lemma numeric_id_padded:
  assumes "map_of r ''ID'' = Some (PyStr (prefix @ zero_padded w k))"
  shows "numeric_id prefix r" "suffix_number prefix r = k"
  using assms
  by (auto simp: numeric_id_def suffix_number_def id_of_def zero_padded_nonempty
      dec_value_zero_padded list_all_iff zero_padded_digits)

lemma generate_id_bound:
  assumes "list_all (numeric_id prefix) store" "generate_id mx prefix store = Inr new_id"
  shows "\<exists>k. new_id = prefix @ zero_padded 3 k
             \<and> (\<forall>r\<in>set store. suffix_number prefix r < k)"
proof (cases "store = []")
  case True
  with assms(2) show ?thesis by (auto simp: generate_id_def zero_padded_1 intro!: exI[of _ 1])
next
  case False
  let ?k = "Max (suffix_number prefix ` set store) + 1"
  have b: "\<forall>r\<in>set store. suffix_number prefix r < ?k"
    by (auto simp: less_Suc_eq_le)
  from generate_id_numeric[OF assms(1) False, of mx] assms(2)
  have "new_id = prefix @ zero_padded 3 ?k" by (simp split: if_splits)
  with b show ?thesis by blast
qed

lemma ids_increasing_append:
  assumes inv: "ids_increasing prefix store"
    and g: "generate_id mx prefix store = Inr new_id"
    and r: "map_of r ''ID'' = Some (PyStr new_id)"
  shows "ids_increasing prefix (store @ [r])"
proof -
  from inv have wf: "list_all (numeric_id prefix) store" by (simp add: ids_increasing_def)
  from generate_id_bound[OF wf g] obtain k where
    k: "new_id = prefix @ zero_padded 3 k" "\<forall>x\<in>set store. suffix_number prefix x < k"
    by auto
  from r k(1) have nr: "numeric_id prefix r" "suffix_number prefix r = k"
    by (auto intro: numeric_id_padded)
  have fresh: "map_of r ''ID'' \<notin> set (map (\<lambda>item. map_of item ''ID'') store)"
  proof
    assume "map_of r ''ID'' \<in> set (map (\<lambda>item. map_of item ''ID'') store)"
    then obtain x where "x \<in> set store" "map_of x ''ID'' = Some (PyStr new_id)"
      using r by auto
    with generate_id_fresh[OF g] show False by blast
  qed
  show ?thesis using inv nr k(2) fresh
    by (simp add: ids_increasing_def sorted_wrt_append)
qed

lemma update_status_loop_ids:
  "update_status_loop store target new = Inr (store', found) \<Longrightarrow>
   map (\<lambda>r. map_of r ''ID'') store' = map (\<lambda>r. map_of r ''ID'') store"
proof (induction store arbitrary: store' found)
  case Nil
  then show ?case by simp
next
  case (Cons r rs)
  then show ?case
    by (auto simp: and_then_eq_Inr map_of_setitem split: if_splits)
qed

lemma numeric_id_cong:
  "map_of r ''ID'' = map_of r' ''ID'' \<Longrightarrow> numeric_id prefix r = numeric_id prefix r'"
  by (simp add: numeric_id_def id_of_def)

lemma suffix_number_cong:
  "map_of r ''ID'' = map_of r' ''ID'' \<Longrightarrow> suffix_number prefix r = suffix_number prefix r'"
  by (simp add: suffix_number_def id_of_def)

lemma ids_cong_lists:
  "map (\<lambda>r. map_of r ''ID'') store' = map (\<lambda>r. map_of r ''ID'') store \<Longrightarrow>
   list_all (numeric_id prefix) store' = list_all (numeric_id prefix) store
   \<and> map (suffix_number prefix) store' = map (suffix_number prefix) store"
proof (induction store arbitrary: store')
  case Nil
  then show ?case by simp
next
  case (Cons r rs)
  then obtain r' rs' where s: "store' = r' # rs'" "map_of r' ''ID'' = map_of r ''ID''"
    "map (\<lambda>r. map_of r ''ID'') rs' = map (\<lambda>r. map_of r ''ID'') rs"
    by (cases store') auto
  from Cons.IH[OF s(3)] numeric_id_cong[OF s(2), of prefix] suffix_number_cong[OF s(2), of prefix]
  show ?case unfolding s(1) by simp
qed

lemma ids_increasing_cong:
  assumes "map (\<lambda>r. map_of r ''ID'') store' = map (\<lambda>r. map_of r ''ID'') store"
  shows "ids_increasing prefix store' = ids_increasing prefix store"
  unfolding ids_increasing_def using ids_cong_lists[OF assms, of prefix] assms by simp

lemma update_section_ids:
  assumes "update_section kind t1 t2 store target new = Inr (msgs, store')"
  shows "ids_increasing prefix store' = ids_increasing prefix store"
proof (cases "store = []")
  case True
  with assms show ?thesis by (simp add: update_section_def)
next
  case False
  with assms obtain ids where "id_column store = Inr ids"
    by (auto simp: update_section_def and_then_eq_Inr)
  with assms False have "store' = store \<or> (\<exists>found. update_status_loop store target new = Inr (store', found))"
    by (auto simp: update_section_def and_then_eq_Inr split: if_splits)
  then show ?thesis
  proof
    assume "store' = store"
    then show ?thesis by simp
  next
    assume "\<exists>found. update_status_loop store target new = Inr (store', found)"
    then obtain found where "update_status_loop store target new = Inr (store', found)" ..
    from update_status_loop_ids[OF this] show ?thesis by (rule ids_increasing_cong)
  qed
qed

lemma add_audit_engagement_invariant:
  assumes "add_audit_engagement mx a1 a2 a3 a4 a5 a6 a7 a8 a9 s = Inr r" "store_invariant s"
  shows "store_invariant (state r)"
proof -
  from assms(1) obtain new_id where g: "generate_id mx ''AE'' (audit_engagements s) = Inr new_id"
    by (auto simp: add_audit_engagement_def and_then_eq_Inr)
  from assms(2) have "ids_increasing ''AE'' (audit_engagements s)" by (simp add: store_invariant_def)
  from ids_increasing_append[OF this g] assms show ?thesis
    using g by (auto simp: add_audit_engagement_def store_invariant_def)
qed

lemma add_audit_finding_invariant:
  assumes "add_audit_finding mx a1 a2 a3 a4 a5 a6 a7 a8 s = Inr r" "store_invariant s"
  shows "store_invariant (state r)"
proof -
  from assms(1) obtain new_id where g: "generate_id mx ''F'' (audit_findings s) = Inr new_id"
    by (auto simp: add_audit_finding_def and_then_eq_Inr)
  from assms(2) have "ids_increasing ''F'' (audit_findings s)" by (simp add: store_invariant_def)
  from ids_increasing_append[OF this g] assms show ?thesis
    using g by (auto simp: add_audit_finding_def store_invariant_def)
qed

lemma add_corrective_action_invariant:
  assumes "add_corrective_action mx a1 a2 a3 a4 a5 a6 s = Inr r" "store_invariant s"
  shows "store_invariant (state r)"
proof -
  from assms(1) obtain new_id where g: "generate_id mx ''CA'' (corrective_actions s) = Inr new_id"
    by (auto simp: add_corrective_action_def and_then_eq_Inr)
  from assms(2) have "ids_increasing ''CA'' (corrective_actions s)" by (simp add: store_invariant_def)
  from ids_increasing_append[OF this g] assms show ?thesis
    using g by (auto simp: add_corrective_action_def store_invariant_def)
qed

lemma submit_audit_engagement_form_invariant:
  assumes "submit_audit_engagement_form mx a1 a2 a3 a4 a5 a6 a7 f s = Inr r" "store_invariant s"
  shows "store_invariant (state r)"
proof (cases "truthy a1 \<and> truthy a2 \<and> truthy a4")
  case True
  with assms(1) show ?thesis
    using add_audit_engagement_invariant[OF _ assms(2)]
    by (simp add: submit_audit_engagement_form_def Let_def)
next
  case False
  with assms show ?thesis by (auto simp: submit_audit_engagement_form_def Let_def)
qed

lemma submit_audit_finding_form_invariant:
  assumes "submit_audit_finding_form mx fmt d a2 a3 f a4 a5 a6 s = Inr r" "store_invariant s"
  shows "store_invariant (state r)"
proof (cases "state r = s")
  case True
  with assms(2) show ?thesis by simp
next
  case False
  with assms(1) obtain a1 r' where
    "add_audit_finding mx a1 a2 a3 a4 a5 a6 (file_name f) (file_data f) s = Inr r'"
    "r = r'\<lparr>returned := PyNone\<rparr>"
    by (auto simp: submit_audit_finding_form_def Let_def and_then_eq_Inr split: if_splits)
  then show ?thesis using add_audit_finding_invariant[OF _ assms(2)] by simp
qed

lemma submit_corrective_action_form_invariant:
  assumes "submit_corrective_action_form mx fmt d a2 a3 a4 f s = Inr r" "store_invariant s"
  shows "store_invariant (state r)"
proof (cases "state r = s")
  case True
  with assms(2) show ?thesis by simp
next
  case False
  with assms(1) obtain a1 where
    "add_corrective_action mx a1 a2 a3 a4 (file_name f) (file_data f) s = Inr r"
    by (auto simp: submit_corrective_action_form_def Let_def and_then_eq_Inr split: if_splits)
  then show ?thesis using add_corrective_action_invariant[OF _ assms(2)] by simp
qed

lemma update_engagement_status_invariant:
  assumes "update_engagement_status i v s = Inr r" "store_invariant s"
  shows "store_invariant (state r)"
proof -
  from assms(1) obtain msgs store' where
    u: "update_section ''Engagement'' ''No audit engagements created yet.''
          ''No engagements to update.'' (audit_engagements s) i v = Inr (msgs, store')"
    and r: "state r = s\<lparr>audit_engagements := store'\<rparr>"
    by (auto simp: update_engagement_status_def and_then_eq_Inr)
  from update_section_ids[OF u, of "''AE''"] assms(2) show ?thesis
    by (simp add: r store_invariant_def)
qed

lemma update_finding_status_invariant:
  assumes "update_finding_status i v s = Inr r" "store_invariant s"
  shows "store_invariant (state r)"
proof -
  from assms(1) obtain msgs store' where
    u: "update_section ''Finding'' ''No audit findings created yet.''
          ''No findings to update.'' (audit_findings s) i v = Inr (msgs, store')"
    and r: "state r = s\<lparr>audit_findings := store'\<rparr>"
    by (auto simp: update_finding_status_def and_then_eq_Inr)
  from update_section_ids[OF u, of "''F''"] assms(2) show ?thesis
    by (simp add: r store_invariant_def)
qed

lemma update_corrective_action_status_invariant:
  assumes "update_corrective_action_status i v s = Inr r" "store_invariant s"
  shows "store_invariant (state r)"
proof -
  from assms(1) obtain msgs store' where
    u: "update_section ''Action'' ''No corrective actions created yet.''
          ''No corrective actions to update.'' (corrective_actions s) i v = Inr (msgs, store')"
    and r: "state r = s\<lparr>corrective_actions := store'\<rparr>"
    by (auto simp: update_corrective_action_status_def and_then_eq_Inr)
  from update_section_ids[OF u, of "''CA''"] assms(2) show ?thesis
    by (simp add: r store_invariant_def)
qed

lemma step_invariant: "step mx s s' \<Longrightarrow> store_invariant s \<Longrightarrow> store_invariant s'"
proof (induction rule: step.induct)
  case (add_engagement a1 a2 a3 a4 a5 a6 a7 a8 a9 s r)
  then show ?case by (rule add_audit_engagement_invariant)
next
  case (add_finding a1 a2 a3 a4 a5 a6 a7 a8 s r)
  then show ?case by (rule add_audit_finding_invariant)
next
  case (add_action a1 a2 a3 a4 a5 a6 s r)
  then show ?case by (rule add_corrective_action_invariant)
next
  case (submit_engagement a1 a2 a3 a4 a5 a6 a7 f s r)
  then show ?case by (rule submit_audit_engagement_form_invariant)
next
  case (submit_finding fmt d a2 a3 f a4 a5 a6 s r)
  then show ?case by (rule submit_audit_finding_form_invariant)
next
  case (submit_action fmt d a2 a3 a4 f s r)
  then show ?case by (rule submit_corrective_action_form_invariant)
next
  case (update_engagement i v s r)
  then show ?case by (rule update_engagement_status_invariant)
next
  case (update_finding i v s r)
  then show ?case by (rule update_finding_status_invariant)
next
  case (update_action i v s r)
  then show ?case by (rule update_corrective_action_status_invariant)
qed

lemma initial_invariant: "store_invariant initial_state"
  by (simp add: store_invariant_def ids_increasing_def initial_state_def)

lemma reachable_invariant: "reachable mx s \<Longrightarrow> store_invariant s"
  by (induction rule: reachable.induct) (auto intro: initial_invariant step_invariant)

text \<open>
  Claim C2. In every state reached from the empty session by creations and status
  updates, with any arguments, the identifiers of each store are pairwise different and
  their numeric suffixes increase strictly in creation order; and every such operation
  preserves this invariant, from whatever state satisfying it.
\<close>

theorem ids_unique_and_increasing:
  "(reachable max_str_digits s \<longrightarrow> store_invariant s)
   \<and> (store_invariant s \<and> step max_str_digits s s' \<longrightarrow> store_invariant s')
   \<and> (store_invariant s \<longrightarrow>
        distinct (map (\<lambda>item. map_of item ''ID'') (audit_engagements s))
        \<and> sorted_wrt (<) (map (suffix_number ''AE'') (audit_engagements s))
        \<and> distinct (map (\<lambda>item. map_of item ''ID'') (audit_findings s))
        \<and> sorted_wrt (<) (map (suffix_number ''F'') (audit_findings s))
        \<and> distinct (map (\<lambda>item. map_of item ''ID'') (corrective_actions s))
        \<and> sorted_wrt (<) (map (suffix_number ''CA'') (corrective_actions s)))"
  using reachable_invariant[of max_str_digits s] step_invariant[of max_str_digits s s']
  by (auto simp: store_invariant_def ids_increasing_def)

theorem ids_unique_and_increasing_witness:
  "reachable 4300
     \<lparr>audit_engagements =
        [[(''ID'', PyStr ''AE001''), (''Title'', PyStr ''a''), (''Department'', PyStr ''b''),
          (''Audit Type'', PyStr ''IT''), (''Auditor(s)'', PyStr ''c''), (''Auditee(s)'', PyStr ''d''),
          (''Start Date'', PyDate 739000), (''End Date'', PyDate 739030),
          (''Status'', PyStr ''Completed''), (''Audit Report Name'', PyNone),
          (''Audit Report Data'', PyNone)],
         [(''ID'', PyStr ''AE002''), (''Title'', PyStr ''e''), (''Department'', PyStr ''f''),
          (''Audit Type'', PyStr ''IT''), (''Auditor(s)'', PyStr ''g''), (''Auditee(s)'', PyStr ''h''),
          (''Start Date'', PyDate 739001), (''End Date'', PyDate 739031),
          (''Status'', PyStr ''Draft''), (''Audit Report Name'', PyNone),
          (''Audit Report Data'', PyNone)]],
      audit_findings = [], corrective_actions = []\<rparr>
   \<and> store_invariant
     \<lparr>audit_engagements =
        [[(''ID'', PyStr ''AE001''), (''Title'', PyStr ''a''), (''Department'', PyStr ''b''),
          (''Audit Type'', PyStr ''IT''), (''Auditor(s)'', PyStr ''c''), (''Auditee(s)'', PyStr ''d''),
          (''Start Date'', PyDate 739000), (''End Date'', PyDate 739030),
          (''Status'', PyStr ''Completed''), (''Audit Report Name'', PyNone),
          (''Audit Report Data'', PyNone)],
         [(''ID'', PyStr ''AE002''), (''Title'', PyStr ''e''), (''Department'', PyStr ''f''),
          (''Audit Type'', PyStr ''IT''), (''Auditor(s)'', PyStr ''g''), (''Auditee(s)'', PyStr ''h''),
          (''Start Date'', PyDate 739001), (''End Date'', PyDate 739031),
          (''Status'', PyStr ''Draft''), (''Audit Report Name'', PyNone),
          (''Audit Report Data'', PyNone)]],
      audit_findings = [], corrective_actions = []\<rparr>
   \<and> store_invariant initial_state
   \<and> step 4300 initial_state
     \<lparr>audit_engagements =
        [[(''ID'', PyStr ''AE001''), (''Title'', PyStr ''a''), (''Department'', PyStr ''b''),
          (''Audit Type'', PyStr ''IT''), (''Auditor(s)'', PyStr ''c''), (''Auditee(s)'', PyStr ''d''),
          (''Start Date'', PyDate 739000), (''End Date'', PyDate 739030),
          (''Status'', PyStr ''Draft''), (''Audit Report Name'', PyNone),
          (''Audit Report Data'', PyNone)]],
      audit_findings = [], corrective_actions = []\<rparr>
   \<and> store_invariant
     \<lparr>audit_engagements =
        [[(''ID'', PyStr ''AE001''), (''Title'', PyStr ''a''), (''Department'', PyStr ''b''),
          (''Audit Type'', PyStr ''IT''), (''Auditor(s)'', PyStr ''c''), (''Auditee(s)'', PyStr ''d''),
          (''Start Date'', PyDate 739000), (''End Date'', PyDate 739030),
          (''Status'', PyStr ''Draft''), (''Audit Report Name'', PyNone),
          (''Audit Report Data'', PyNone)]],
      audit_findings = [], corrective_actions = []\<rparr>
   \<and> map (suffix_number ''AE'')
        [[(''ID'', PyStr ''AE001''), (''Status'', PyStr ''Completed'')],
         [(''ID'', PyStr ''AE002''), (''Status'', PyStr ''Draft'')]] = [1, 2]"
proof -
  let ?e1 = "[(''ID'', PyStr ''AE001''), (''Title'', PyStr ''a''), (''Department'', PyStr ''b''),
          (''Audit Type'', PyStr ''IT''), (''Auditor(s)'', PyStr ''c''), (''Auditee(s)'', PyStr ''d''),
          (''Start Date'', PyDate 739000), (''End Date'', PyDate 739030),
          (''Status'', PyStr ''Draft''), (''Audit Report Name'', PyNone),
          (''Audit Report Data'', PyNone)]"
  let ?e1' = "[(''ID'', PyStr ''AE001''), (''Title'', PyStr ''a''), (''Department'', PyStr ''b''),
          (''Audit Type'', PyStr ''IT''), (''Auditor(s)'', PyStr ''c''), (''Auditee(s)'', PyStr ''d''),
          (''Start Date'', PyDate 739000), (''End Date'', PyDate 739030),
          (''Status'', PyStr ''Completed''), (''Audit Report Name'', PyNone),
          (''Audit Report Data'', PyNone)]"
  let ?e2 = "[(''ID'', PyStr ''AE002''), (''Title'', PyStr ''e''), (''Department'', PyStr ''f''),
          (''Audit Type'', PyStr ''IT''), (''Auditor(s)'', PyStr ''g''), (''Auditee(s)'', PyStr ''h''),
          (''Start Date'', PyDate 739001), (''End Date'', PyDate 739031),
          (''Status'', PyStr ''Draft''), (''Audit Report Name'', PyNone),
          (''Audit Report Data'', PyNone)]"
  let ?s1 = "\<lparr>audit_engagements = [?e1], audit_findings = [], corrective_actions = []\<rparr>"
  let ?s2 = "\<lparr>audit_engagements = [?e1, ?e2], audit_findings = [], corrective_actions = []\<rparr>"
  let ?s3 = "\<lparr>audit_engagements = [?e1', ?e2], audit_findings = [], corrective_actions = []\<rparr>"
  have a1: "map_sum id state (add_audit_engagement 4300 (PyStr ''a'') (PyStr ''b'') (PyStr ''IT'') (PyStr ''c'')
      (PyStr ''d'') (PyDate 739000) (PyDate 739030) PyNone PyNone initial_state) = Inr ?s1"
    by code_simp
  have a2: "map_sum id state (add_audit_engagement 4300 (PyStr ''e'') (PyStr ''f'') (PyStr ''IT'') (PyStr ''g'')
      (PyStr ''h'') (PyDate 739001) (PyDate 739031) PyNone PyNone ?s1) = Inr ?s2"
    by code_simp
  have a3: "map_sum id state (update_engagement_status (PyStr ''AE001'') (PyStr ''Completed'') ?s2)
      = Inr ?s3"
    by code_simp
  from a1 obtain r1 where r1: "add_audit_engagement 4300 (PyStr ''a'') (PyStr ''b'') (PyStr ''IT'') (PyStr ''c'')
      (PyStr ''d'') (PyDate 739000) (PyDate 739030) PyNone PyNone initial_state = Inr r1"
    "state r1 = ?s1"
    by (auto simp: map_sum_def split: sum.splits)
  from a2 obtain r2 where r2: "add_audit_engagement 4300 (PyStr ''e'') (PyStr ''f'') (PyStr ''IT'') (PyStr ''g'')
      (PyStr ''h'') (PyDate 739001) (PyDate 739031) PyNone PyNone ?s1 = Inr r2"
    "state r2 = ?s2"
    by (auto simp: map_sum_def split: sum.splits)
  from a3 obtain r3 where r3: "update_engagement_status (PyStr ''AE001'') (PyStr ''Completed'') ?s2 = Inr r3"
    "state r3 = ?s3"
    by (auto simp: map_sum_def split: sum.splits)
  have st1: "step 4300 initial_state ?s1" using step.add_engagement[OF r1(1)] r1(2) by simp
  have st2: "step 4300 ?s1 ?s2" using step.add_engagement[OF r2(1)] r2(2) by simp
  have st3: "step 4300 ?s2 ?s3" using step.update_engagement[OF r3(1)] r3(2) by simp
  have re: "reachable 4300 ?s3"
    by (rule reachable.next_step[OF reachable.next_step[OF reachable.next_step[OF reachable.start st1] st2] st3])
  note t = ids_unique_and_increasing[where max_str_digits = 4300]
  have i3: "store_invariant ?s3" by (rule t[THEN conjunct1, rule_format, OF re])
  have i0: "store_invariant initial_state"
    by (rule t[THEN conjunct1, rule_format, OF reachable.start])
  have i1: "store_invariant ?s1"
    by (rule t[THEN conjunct2, THEN conjunct1, rule_format, OF conjI, OF i0 st1])
  have sn: "map (suffix_number ''AE'')
        [[(''ID'', PyStr ''AE001''), (''Status'', PyStr ''Completed'')],
         [(''ID'', PyStr ''AE002''), (''Status'', PyStr ''Draft'')]] = [1, 2]"
    by code_simp
  from re i3 i0 st1 i1 sn show ?thesis by (intro conjI)
qed


section \<open>Every record of a reachable state has an identifier and a status\<close>

lemma update_status_loop_complete:
  "update_status_loop store target new = Inr (store', found) \<Longrightarrow>
   list_all has_id_and_status store \<Longrightarrow> list_all has_id_and_status store'"
proof (induction store arbitrary: store' found)
  case Nil
  then show ?case by simp
next
  case (Cons r rs)
  then show ?case
    by (auto simp: and_then_eq_Inr map_of_setitem has_id_and_status_def split: if_splits)
qed

lemma update_section_complete:
  assumes "update_section kind t1 t2 store target new = Inr (msgs, store')"
    and "list_all has_id_and_status store"
  shows "list_all has_id_and_status store'"
proof (cases "store = []")
  case True
  with assms show ?thesis by (simp add: update_section_def)
next
  case False
  with assms(1) have "store' = store \<or> (\<exists>found. update_status_loop store target new = Inr (store', found))"
    by (auto simp: update_section_def and_then_eq_Inr split: if_splits)
  then show ?thesis using assms(2) update_status_loop_complete by blast
qed

lemma step_complete: "step mx s s' \<Longrightarrow> records_complete s \<Longrightarrow> records_complete s'"
proof (induction rule: step.induct)
  case (add_engagement a1 a2 a3 a4 a5 a6 a7 a8 a9 s r)
  then show ?case
    by (auto simp: add_audit_engagement_def and_then_eq_Inr records_complete_def has_id_and_status_def)
next
  case (add_finding a1 a2 a3 a4 a5 a6 a7 a8 s r)
  then show ?case
    by (auto simp: add_audit_finding_def and_then_eq_Inr records_complete_def has_id_and_status_def)
next
  case (add_action a1 a2 a3 a4 a5 a6 s r)
  then show ?case
    by (auto simp: add_corrective_action_def and_then_eq_Inr records_complete_def has_id_and_status_def)
next
  case (submit_engagement a1 a2 a3 a4 a5 a6 a7 f s r)
  then show ?case
    by (auto simp: submit_audit_engagement_form_def Let_def add_audit_engagement_def
        and_then_eq_Inr records_complete_def has_id_and_status_def split: if_splits)
next
  case (submit_finding fmt d a2 a3 f a4 a5 a6 s r)
  then show ?case
    by (auto simp: submit_audit_finding_form_def Let_def add_audit_finding_def
        and_then_eq_Inr records_complete_def has_id_and_status_def split: if_splits)
next
  case (submit_action fmt d a2 a3 a4 f s r)
  then show ?case
    by (auto simp: submit_corrective_action_form_def Let_def add_corrective_action_def
        and_then_eq_Inr records_complete_def has_id_and_status_def split: if_splits)
next
  case (update_engagement i v s r)
  then show ?case
    by (auto simp: update_engagement_status_def and_then_eq_Inr records_complete_def
        dest: update_section_complete)
next
  case (update_finding i v s r)
  then show ?case
    by (auto simp: update_finding_status_def and_then_eq_Inr records_complete_def
        dest: update_section_complete)
next
  case (update_action i v s r)
  then show ?case
    by (auto simp: update_corrective_action_status_def and_then_eq_Inr records_complete_def
        dest: update_section_complete)
qed

lemma reachable_complete: "reachable mx s \<Longrightarrow> records_complete s"
proof (induction rule: reachable.induct)
  case start
  then show ?case by (simp add: records_complete_def initial_state_def)
next
  case (next_step s s')
  then show ?case by (simp add: step_complete)
qed

lemma reachable_have_id:
  assumes "reachable mx s"
  shows "\<forall>r\<in>set (audit_engagements s). map_of r ''ID'' \<noteq> None"
    and "\<forall>r\<in>set (audit_findings s). map_of r ''ID'' \<noteq> None"
    and "\<forall>r\<in>set (corrective_actions s). map_of r ''ID'' \<noteq> None"
  using reachable_complete[OF assms]
  by (auto simp: records_complete_def has_id_and_status_def list_all_iff)

lemma reachable_have_status:
  assumes "reachable mx s"
  shows "\<forall>r\<in>set (audit_engagements s). map_of r ''Status'' \<noteq> None"
    and "\<forall>r\<in>set (audit_findings s). map_of r ''Status'' \<noteq> None"
    and "\<forall>r\<in>set (corrective_actions s). map_of r ''Status'' \<noteq> None"
  using reachable_complete[OF assms]
  by (auto simp: records_complete_def has_id_and_status_def list_all_iff)

section \<open>Successive creations\<close>

lemma length_dec_str_mono: "m \<le> n \<Longrightarrow> length (dec_str m) \<le> length (dec_str n)"
proof (induction n arbitrary: m rule: dec_str.induct)
  case (1 n)
  show ?case
  proof (cases "m < 10")
    case True
    then have "length (dec_str m) = 1" by (subst dec_str.simps) simp
    moreover have "1 \<le> length (dec_str n)"
      using dec_str_nonempty[of n] by (cases "dec_str n") simp_all
    ultimately show ?thesis by simp
  next
    case False
    with "1.prems" have n: "\<not> n < 10" by simp
    have "m div 10 \<le> n div 10" using "1.prems" by (rule div_le_mono)
    from "1.IH"[OF n this] have "length (dec_str (m div 10)) \<le> length (dec_str (n div 10))" .
    moreover have "length (dec_str m) = Suc (length (dec_str (m div 10)))"
      using False by (subst dec_str.simps) simp
    moreover have "length (dec_str n) = Suc (length (dec_str (n div 10)))"
      using n by (subst dec_str.simps) simp
    ultimately show ?thesis by simp
  qed
qed

lemma length_dec_str_less: "0 < l \<Longrightarrow> n < 10 ^ l \<Longrightarrow> length (dec_str n) \<le> l"
proof (induction n arbitrary: l rule: dec_str.induct)
  case (1 n)
  show ?case
  proof (cases "n < 10")
    case True
    then have "length (dec_str n) = 1" by (subst dec_str.simps) simp
    with "1.prems" show ?thesis by simp
  next
    case False
    from "1.prems" obtain l' where l: "l = Suc l'" by (cases l) auto
    have "0 < l'" using False "1.prems" l by (cases l') auto
    moreover have "n div 10 < 10 ^ l'" using "1.prems" l by (simp add: less_mult_imp_div_less mult.commute)
    ultimately have "length (dec_str (n div 10)) \<le> l'" using "1.IH"[OF False] by blast
    moreover have "length (dec_str n) = Suc (length (dec_str (n div 10)))"
      using False by (subst dec_str.simps) simp
    ultimately show ?thesis using l by simp
  qed
qed

text \<open>
  The conversion limit allows every number below \<open>10\<close> to the power of the limit: every
  number when the limit is off, and the numbers below \<open>10 ^ 4300\<close> by default.
\<close>

lemma within_limit_below:
  assumes "max_str_digits = 0 \<or> n < 10 ^ max max_str_digits 640"
  shows "within_limit max_str_digits (length (dec_str n))"
proof (cases "max_str_digits = 0")
  case True
  then show ?thesis by (simp add: within_limit_def)
next
  case False
  with assms have "n < 10 ^ max max_str_digits 640" by simp
  moreover have "0 < max max_str_digits 640" by simp
  ultimately have "length (dec_str n) \<le> max max_str_digits 640"
    by (rule length_dec_str_less[rotated])
  then show ?thesis by (simp add: within_limit_def)
qed

lemma suffix_length_padded:
  "map_of r ''ID'' = Some (PyStr (prefix @ ds)) \<Longrightarrow> suffix_length prefix r = length ds"
  by (simp add: suffix_length_def id_of_def)

lemma generate_id_sequence:
  assumes "map (\<lambda>r. map_of r ''ID'') store
           = map (\<lambda>k. Some (PyStr (prefix @ zero_padded 3 k))) [Suc 0..<Suc n]"
    and lim: "within_limit mx (length (dec_str (Suc n)))"
  shows "generate_id mx prefix store = Inr (prefix @ zero_padded 3 (Suc n))"
proof -
  from assms(1) have len: "length store = n"
    using map_eq_imp_length_eq by fastforce
  have nth: "map_of (store ! i) ''ID'' = Some (PyStr (prefix @ zero_padded 3 (Suc i)))" if "i < n" for i
  proof -
    have "map (\<lambda>r. map_of r ''ID'') store ! i
          = map (\<lambda>k. Some (PyStr (prefix @ zero_padded 3 k))) [Suc 0..<Suc n] ! i"
      by (simp only: assms(1))
    then show ?thesis using that len by (simp del: upt_Suc)
  qed
  have wf: "list_all (numeric_id prefix) store"
    unfolding list_all_length using nth len numeric_id_padded(1) by blast
  have wl: "list_all (\<lambda>item. within_limit mx (suffix_length prefix item)) store"
    unfolding list_all_length
  proof (intro allI impI)
    fix i assume "i < length store"
    then have i: "i < n" using len by simp
    have "length (dec_str (Suc i)) \<le> length (dec_str (Suc n))"
      using i by (intro length_dec_str_mono) simp
    then have "within_limit mx (length (dec_str (Suc i)))" using lim by (rule within_limit_mono)
    then have "within_limit mx (length (zero_padded 3 (Suc i)))" by (rule within_limit_padded)
    then show "within_limit mx (suffix_length prefix (store ! i))"
      by (simp only: suffix_length_padded[OF nth[OF i]])
  qed
  have sn: "map (suffix_number prefix) store = [Suc 0..<Suc n]"
  proof (rule nth_equalityI)
    show "length (map (suffix_number prefix) store) = length [Suc 0..<Suc n]" using len by simp
  next
    fix i assume "i < length (map (suffix_number prefix) store)"
    then have i: "i < n" using len by simp
    from numeric_id_padded(2)[OF nth[OF i]] i len
    show "map (suffix_number prefix) store ! i = [Suc 0..<Suc n] ! i" by (simp del: upt_Suc)
  qed
  show ?thesis
  proof (cases "n = 0")
    case True
    with len show ?thesis by (simp add: generate_id_def zero_padded_1)
  next
    case False
    with len have ne: "store \<noteq> []" by auto
    have "suffix_number prefix ` set store = set (map (suffix_number prefix) store)" by simp
    also have "\<dots> = {Suc 0..<Suc n}" unfolding sn by (simp del: upt_Suc)
    finally have "suffix_number prefix ` set store = {Suc 0..n}"
      by (simp add: atLeastLessThanSuc_atLeastAtMost)
    moreover have "Max {Suc 0..n} = n" using False by (intro Max_eqI) auto
    ultimately have "Max (suffix_number prefix ` set store) = n" by simp
    with generate_id_numeric[OF wf ne, of mx] wl lim show ?thesis by simp
  qed
qed

lemma upt_shift: "[Suc n..<Suc (Suc (n + m))] = Suc n # [Suc (Suc n)..<Suc (Suc (n + m))]"
  by (simp add: upt_conv_Cons del: upt_Suc)

lemma run_add_audit_findings:
  assumes "\<forall>op\<in>set ops. \<exists>a1 a2 a3 a4 a5 a6 a7 a8. op = add_audit_finding mx a1 a2 a3 a4 a5 a6 a7 a8"
    and "map (\<lambda>r. map_of r ''ID'') (audit_findings s)
         = map (\<lambda>k. Some (PyStr (''F'' @ zero_padded 3 k))) [Suc 0..<Suc n]"
    and "within_limit mx (length (dec_str (n + length ops)))"
  shows "\<exists>s'. run_ops ops s
               = Inr (map (\<lambda>k. PyStr (''F'' @ zero_padded 3 k)) [Suc n..<Suc (n + length ops)], s')
            \<and> map (\<lambda>r. map_of r ''ID'') (audit_findings s')
               = map (\<lambda>k. Some (PyStr (''F'' @ zero_padded 3 k))) [Suc 0..<Suc (n + length ops)]
            \<and> audit_engagements s' = audit_engagements s
            \<and> corrective_actions s' = corrective_actions s"
  using assms
proof (induction ops arbitrary: s n)
  case Nil
  then show ?case by simp
next
  case (Cons op ops)
  from Cons.prems(1) obtain a1 a2 a3 a4 a5 a6 a7 a8 where
    op: "op = add_audit_finding mx a1 a2 a3 a4 a5 a6 a7 a8" by auto
  have "length (dec_str (Suc n)) \<le> length (dec_str (n + length (op # ops)))"
    by (intro length_dec_str_mono) simp
  then have l1: "within_limit mx (length (dec_str (Suc n)))"
    using Cons.prems(3) by (rule within_limit_mono)
  from Cons.prems(3) have l2: "within_limit mx (length (dec_str (Suc n + length ops)))" by simp
  from generate_id_sequence[OF Cons.prems(2) l1]
  have g: "generate_id mx ''F'' (audit_findings s) = Inr (''F'' @ zero_padded 3 (Suc n))" .
  then obtain r where r: "op s = Inr r" "returned r = PyStr (''F'' @ zero_padded 3 (Suc n))"
    "audit_engagements (state r) = audit_engagements s"
    "corrective_actions (state r) = corrective_actions s"
    "map (\<lambda>r. map_of r ''ID'') (audit_findings (state r))
     = map (\<lambda>r. map_of r ''ID'') (audit_findings s) @ [Some (PyStr (''F'' @ zero_padded 3 (Suc n)))]"
    by (simp add: op add_audit_finding_def)
  from r(5) Cons.prems(2)
  have ids: "map (\<lambda>r. map_of r ''ID'') (audit_findings (state r))
     = map (\<lambda>k. Some (PyStr (''F'' @ zero_padded 3 k))) [Suc 0..<Suc (Suc n)]"
    by simp
  from Cons.prems(1) have "\<forall>op\<in>set ops. \<exists>a1 a2 a3 a4 a5 a6 a7 a8. op = add_audit_finding mx a1 a2 a3 a4 a5 a6 a7 a8"
    by simp
  from Cons.IH[OF this ids l2] obtain s' where s':
    "run_ops ops (state r)
       = Inr (map (\<lambda>k. PyStr (''F'' @ zero_padded 3 k)) [Suc (Suc n)..<Suc (Suc n + length ops)], s')"
    "map (\<lambda>r. map_of r ''ID'') (audit_findings s')
       = map (\<lambda>k. Some (PyStr (''F'' @ zero_padded 3 k))) [Suc 0..<Suc (Suc n + length ops)]"
    "audit_engagements s' = audit_engagements (state r)"
    "corrective_actions s' = corrective_actions (state r)"
    by blast
  have "run_ops (op # ops) s
        = Inr (map (\<lambda>k. PyStr (''F'' @ zero_padded 3 k)) [Suc n..<Suc (n + length (op # ops))], s')"
    using r(1,2) s'(1) by (simp add: upt_shift del: upt_Suc)
  moreover have "map (\<lambda>r. map_of r ''ID'') (audit_findings s')
       = map (\<lambda>k. Some (PyStr (''F'' @ zero_padded 3 k))) [Suc 0..<Suc (n + length (op # ops))]"
    using s'(2) by simp
  ultimately show ?case using s'(3,4) r(3,4) by auto
qed

lemma run_add_audit_engagements:
  assumes "\<forall>op\<in>set ops. \<exists>a1 a2 a3 a4 a5 a6 a7 a8 a9. op = add_audit_engagement mx a1 a2 a3 a4 a5 a6 a7 a8 a9"
    and "map (\<lambda>r. map_of r ''ID'') (audit_engagements s)
         = map (\<lambda>k. Some (PyStr (''AE'' @ zero_padded 3 k))) [Suc 0..<Suc n]"
    and "within_limit mx (length (dec_str (n + length ops)))"
  shows "\<exists>s'. run_ops ops s
               = Inr (replicate (length ops) PyNone, s')
            \<and> map (\<lambda>r. map_of r ''ID'') (audit_engagements s')
               = map (\<lambda>k. Some (PyStr (''AE'' @ zero_padded 3 k))) [Suc 0..<Suc (n + length ops)]
            \<and> audit_findings s' = audit_findings s
            \<and> corrective_actions s' = corrective_actions s"
  using assms
proof (induction ops arbitrary: s n)
  case Nil
  then show ?case by simp
next
  case (Cons op ops)
  from Cons.prems(1) obtain a1 a2 a3 a4 a5 a6 a7 a8 a9 where
    op: "op = add_audit_engagement mx a1 a2 a3 a4 a5 a6 a7 a8 a9" by auto
  have "length (dec_str (Suc n)) \<le> length (dec_str (n + length (op # ops)))"
    by (intro length_dec_str_mono) simp
  then have l1: "within_limit mx (length (dec_str (Suc n)))"
    using Cons.prems(3) by (rule within_limit_mono)
  from Cons.prems(3) have l2: "within_limit mx (length (dec_str (Suc n + length ops)))" by simp
  from generate_id_sequence[OF Cons.prems(2) l1]
  have g: "generate_id mx ''AE'' (audit_engagements s) = Inr (''AE'' @ zero_padded 3 (Suc n))" .
  then obtain r where r: "op s = Inr r" "returned r = PyNone"
    "audit_findings (state r) = audit_findings s"
    "corrective_actions (state r) = corrective_actions s"
    "map (\<lambda>r. map_of r ''ID'') (audit_engagements (state r))
     = map (\<lambda>r. map_of r ''ID'') (audit_engagements s) @ [Some (PyStr (''AE'' @ zero_padded 3 (Suc n)))]"
    by (simp add: op add_audit_engagement_def)
  from r(5) Cons.prems(2)
  have ids: "map (\<lambda>r. map_of r ''ID'') (audit_engagements (state r))
     = map (\<lambda>k. Some (PyStr (''AE'' @ zero_padded 3 k))) [Suc 0..<Suc (Suc n)]"
    by simp
  from Cons.prems(1) have "\<forall>op\<in>set ops. \<exists>a1 a2 a3 a4 a5 a6 a7 a8 a9. op = add_audit_engagement mx a1 a2 a3 a4 a5 a6 a7 a8 a9"
    by simp
  from Cons.IH[OF this ids l2] obtain s' where s':
    "run_ops ops (state r)
       = Inr (replicate (length ops) PyNone, s')"
    "map (\<lambda>r. map_of r ''ID'') (audit_engagements s')
       = map (\<lambda>k. Some (PyStr (''AE'' @ zero_padded 3 k))) [Suc 0..<Suc (Suc n + length ops)]"
    "audit_findings s' = audit_findings (state r)"
    "corrective_actions s' = corrective_actions (state r)"
    by blast
  have "run_ops (op # ops) s
        = Inr (replicate (length (op # ops)) PyNone, s')"
    using r(1,2) s'(1) by (simp add: upt_shift del: upt_Suc)
  moreover have "map (\<lambda>r. map_of r ''ID'') (audit_engagements s')
       = map (\<lambda>k. Some (PyStr (''AE'' @ zero_padded 3 k))) [Suc 0..<Suc (n + length (op # ops))]"
    using s'(2) by simp
  ultimately show ?case using s'(3,4) r(3,4) by auto
qed

lemma run_add_corrective_actions:
  assumes "\<forall>op\<in>set ops. \<exists>a1 a2 a3 a4 a5 a6. op = add_corrective_action mx a1 a2 a3 a4 a5 a6"
    and "map (\<lambda>r. map_of r ''ID'') (corrective_actions s)
         = map (\<lambda>k. Some (PyStr (''CA'' @ zero_padded 3 k))) [Suc 0..<Suc n]"
    and "within_limit mx (length (dec_str (n + length ops)))"
  shows "\<exists>s'. run_ops ops s
               = Inr (replicate (length ops) PyNone, s')
            \<and> map (\<lambda>r. map_of r ''ID'') (corrective_actions s')
               = map (\<lambda>k. Some (PyStr (''CA'' @ zero_padded 3 k))) [Suc 0..<Suc (n + length ops)]
            \<and> audit_engagements s' = audit_engagements s
            \<and> audit_findings s' = audit_findings s"
  using assms
proof (induction ops arbitrary: s n)
  case Nil
  then show ?case by simp
next
  case (Cons op ops)
  from Cons.prems(1) obtain a1 a2 a3 a4 a5 a6 where
    op: "op = add_corrective_action mx a1 a2 a3 a4 a5 a6" by auto
  have "length (dec_str (Suc n)) \<le> length (dec_str (n + length (op # ops)))"
    by (intro length_dec_str_mono) simp
  then have l1: "within_limit mx (length (dec_str (Suc n)))"
    using Cons.prems(3) by (rule within_limit_mono)
  from Cons.prems(3) have l2: "within_limit mx (length (dec_str (Suc n + length ops)))" by simp
  from generate_id_sequence[OF Cons.prems(2) l1]
  have g: "generate_id mx ''CA'' (corrective_actions s) = Inr (''CA'' @ zero_padded 3 (Suc n))" .
  then obtain r where r: "op s = Inr r" "returned r = PyNone"
    "audit_engagements (state r) = audit_engagements s"
    "audit_findings (state r) = audit_findings s"
    "map (\<lambda>r. map_of r ''ID'') (corrective_actions (state r))
     = map (\<lambda>r. map_of r ''ID'') (corrective_actions s) @ [Some (PyStr (''CA'' @ zero_padded 3 (Suc n)))]"
    by (simp add: op add_corrective_action_def)
  from r(5) Cons.prems(2)
  have ids: "map (\<lambda>r. map_of r ''ID'') (corrective_actions (state r))
     = map (\<lambda>k. Some (PyStr (''CA'' @ zero_padded 3 k))) [Suc 0..<Suc (Suc n)]"
    by simp
  from Cons.prems(1) have "\<forall>op\<in>set ops. \<exists>a1 a2 a3 a4 a5 a6. op = add_corrective_action mx a1 a2 a3 a4 a5 a6"
    by simp
  from Cons.IH[OF this ids l2] obtain s' where s':
    "run_ops ops (state r)
       = Inr (replicate (length ops) PyNone, s')"
    "map (\<lambda>r. map_of r ''ID'') (corrective_actions s')
       = map (\<lambda>k. Some (PyStr (''CA'' @ zero_padded 3 k))) [Suc 0..<Suc (Suc n + length ops)]"
    "audit_engagements s' = audit_engagements (state r)"
    "audit_findings s' = audit_findings (state r)"
    by blast
  have "run_ops (op # ops) s
        = Inr (replicate (length (op # ops)) PyNone, s')"
    using r(1,2) s'(1) by (simp add: upt_shift del: upt_Suc)
  moreover have "map (\<lambda>r. map_of r ''ID'') (corrective_actions s')
       = map (\<lambda>k. Some (PyStr (''CA'' @ zero_padded 3 k))) [Suc 0..<Suc (n + length (op # ops))]"
    using s'(2) by simp
  ultimately show ?case using s'(3,4) r(3,4) by auto
qed

lemma length_dec_str_step: "10 \<le> n \<Longrightarrow> length (dec_str n) = Suc (length (dec_str (n div 10)))"
  by (subst dec_str.simps) simp

lemma length_dec_str_digit: "n < 10 \<Longrightarrow> length (dec_str n) = 1"
  by (subst dec_str.simps) simp

lemma length_dec_str_pos: "Suc 0 \<le> length (dec_str n)"
  using dec_str_nonempty[of n] by (cases "dec_str n") simp_all

lemma length_dec_str_le3: "n \<le> 999 \<Longrightarrow> length (dec_str n) \<le> 3"
proof -
  assume n: "n \<le> 999"
  show ?thesis
  proof (cases "n < 10")
    case True
    then show ?thesis by (simp add: length_dec_str_digit)
  next
    case False
    then have 1: "length (dec_str n) = Suc (length (dec_str (n div 10)))"
      by (simp add: length_dec_str_step)
    show ?thesis
    proof (cases "n div 10 < 10")
      case True
      then show ?thesis using 1 by (simp add: length_dec_str_digit)
    next
      case False
      then have 2: "length (dec_str (n div 10)) = Suc (length (dec_str (n div 10 div 10)))"
        by (simp add: length_dec_str_step)
      have "n div 10 div 10 < 10" using n by simp
      then show ?thesis using 1 2 by (simp add: length_dec_str_digit)
    qed
  qed
qed

lemma length_dec_str_ge4: "999 < n \<Longrightarrow> 4 \<le> length (dec_str n)"
proof -
  assume n: "999 < n"
  then have a: "10 \<le> n" "10 \<le> n div 10" "10 \<le> n div 10 div 10" by simp_all
  from length_dec_str_step[OF a(1)] length_dec_str_step[OF a(2)] length_dec_str_step[OF a(3)]
    length_dec_str_pos[of "n div 10 div 10 div 10"]
  show ?thesis by linarith
qed

lemma zero_padded_width:
  "(k \<le> 999 \<longrightarrow> length (zero_padded 3 k) = 3)
   \<and> (999 < k \<longrightarrow> zero_padded 3 k = dec_str k \<and> 4 \<le> length (dec_str k))"
  using length_dec_str_le3[of k] length_dec_str_ge4[of k]
  by (auto simp: zero_padded_def)

text \<open>
  Claim C3. For every number N of successive creations on a store that starts empty, with
  any arguments, N within the conversion limit (every N when the limit is off, every N
  below \<open>10 ^ 4300\<close> by default: lemma \<open>within_limit_below\<close>), no creation raises and the
  identifiers produced are exactly the prefix followed by 1, 2, ..., N, each zero-padded
  to width 3. The padded suffix is a decimal numeral of the number; it has three
  characters up to 999 and is the unpadded numeral, of four or more digits, beyond.
\<close>

theorem sequential_ids:
  "((\<forall>op\<in>set ops. \<exists>a1 a2 a3 a4 a5 a6 a7 a8 a9. op = add_audit_engagement max_str_digits a1 a2 a3 a4 a5 a6 a7 a8 a9)
     \<and> audit_engagements s = []
     \<and> within_limit max_str_digits (length (dec_str (length ops))) \<longrightarrow>
     (\<exists>s'. run_ops ops s = Inr (replicate (length ops) PyNone, s')
        \<and> map (\<lambda>r. map_of r ''ID'') (audit_engagements s')
            = map (\<lambda>k. Some (PyStr (''AE'' @ zero_padded 3 k))) [1..<Suc (length ops)]))
 \<and> ((\<forall>op\<in>set ops. \<exists>a1 a2 a3 a4 a5 a6 a7 a8. op = add_audit_finding max_str_digits a1 a2 a3 a4 a5 a6 a7 a8)
     \<and> audit_findings s = []
     \<and> within_limit max_str_digits (length (dec_str (length ops))) \<longrightarrow>
     (\<exists>s'. run_ops ops s
            = Inr (map (\<lambda>k. PyStr (''F'' @ zero_padded 3 k)) [1..<Suc (length ops)], s')
        \<and> map (\<lambda>r. map_of r ''ID'') (audit_findings s')
            = map (\<lambda>k. Some (PyStr (''F'' @ zero_padded 3 k))) [1..<Suc (length ops)]))
 \<and> ((\<forall>op\<in>set ops. \<exists>a1 a2 a3 a4 a5 a6. op = add_corrective_action max_str_digits a1 a2 a3 a4 a5 a6)
     \<and> corrective_actions s = []
     \<and> within_limit max_str_digits (length (dec_str (length ops))) \<longrightarrow>
     (\<exists>s'. run_ops ops s = Inr (replicate (length ops) PyNone, s')
        \<and> map (\<lambda>r. map_of r ''ID'') (corrective_actions s')
            = map (\<lambda>k. Some (PyStr (''CA'' @ zero_padded 3 k))) [1..<Suc (length ops)]))
 \<and> (k \<le> 999 \<longrightarrow> length (zero_padded 3 k) = 3)
 \<and> (999 < k \<longrightarrow> zero_padded 3 k = dec_str k \<and> 4 \<le> length (dec_str k))
 \<and> list_all is_digit (zero_padded 3 k) \<and> dec_value (zero_padded 3 k) = k"
proof (intro conjI impI)
  assume a: "(\<forall>op\<in>set ops. \<exists>a1 a2 a3 a4 a5 a6 a7 a8 a9. op = add_audit_engagement max_str_digits a1 a2 a3 a4 a5 a6 a7 a8 a9)
     \<and> audit_engagements s = []
     \<and> within_limit max_str_digits (length (dec_str (length ops)))"
  then have "map (\<lambda>r. map_of r ''ID'') (audit_engagements s)
         = map (\<lambda>k. Some (PyStr (''AE'' @ zero_padded 3 k))) [Suc 0..<Suc 0]" by simp
  moreover from a have "within_limit max_str_digits (length (dec_str (0 + length ops)))" by simp
  ultimately obtain s' where "run_ops ops s = Inr (replicate (0 + length ops) PyNone, s')"
    "map (\<lambda>r. map_of r ''ID'') (audit_engagements s')
       = map (\<lambda>k. Some (PyStr (''AE'' @ zero_padded 3 k))) [Suc 0..<Suc (0 + length ops)]"
    using run_add_audit_engagements[OF a[THEN conjunct1], of s 0] by (auto simp del: upt_Suc)
  then
  show "\<exists>s'. run_ops ops s = Inr (replicate (length ops) PyNone, s')
        \<and> map (\<lambda>r. map_of r ''ID'') (audit_engagements s')
            = map (\<lambda>k. Some (PyStr (''AE'' @ zero_padded 3 k))) [1..<Suc (length ops)]"
    by (auto simp del: upt_Suc)
next
  assume a: "(\<forall>op\<in>set ops. \<exists>a1 a2 a3 a4 a5 a6 a7 a8. op = add_audit_finding max_str_digits a1 a2 a3 a4 a5 a6 a7 a8)
     \<and> audit_findings s = []
     \<and> within_limit max_str_digits (length (dec_str (length ops)))"
  then have "map (\<lambda>r. map_of r ''ID'') (audit_findings s)
         = map (\<lambda>k. Some (PyStr (''F'' @ zero_padded 3 k))) [Suc 0..<Suc 0]" by simp
  moreover from a have "within_limit max_str_digits (length (dec_str (0 + length ops)))" by simp
  ultimately obtain s' where "run_ops ops s
       = Inr (map (\<lambda>k. PyStr (''F'' @ zero_padded 3 k)) [Suc 0..<Suc (0 + length ops)], s')"
    "map (\<lambda>r. map_of r ''ID'') (audit_findings s')
       = map (\<lambda>k. Some (PyStr (''F'' @ zero_padded 3 k))) [Suc 0..<Suc (0 + length ops)]"
    using run_add_audit_findings[OF a[THEN conjunct1], of s 0] by (auto simp del: upt_Suc)
  then
  show "\<exists>s'. run_ops ops s
            = Inr (map (\<lambda>k. PyStr (''F'' @ zero_padded 3 k)) [1..<Suc (length ops)], s')
        \<and> map (\<lambda>r. map_of r ''ID'') (audit_findings s')
            = map (\<lambda>k. Some (PyStr (''F'' @ zero_padded 3 k))) [1..<Suc (length ops)]"
    by (auto simp del: upt_Suc)
next
  assume a: "(\<forall>op\<in>set ops. \<exists>a1 a2 a3 a4 a5 a6. op = add_corrective_action max_str_digits a1 a2 a3 a4 a5 a6)
     \<and> corrective_actions s = []
     \<and> within_limit max_str_digits (length (dec_str (length ops)))"
  then have "map (\<lambda>r. map_of r ''ID'') (corrective_actions s)
         = map (\<lambda>k. Some (PyStr (''CA'' @ zero_padded 3 k))) [Suc 0..<Suc 0]" by simp
  moreover from a have "within_limit max_str_digits (length (dec_str (0 + length ops)))" by simp
  ultimately obtain s' where "run_ops ops s = Inr (replicate (0 + length ops) PyNone, s')"
    "map (\<lambda>r. map_of r ''ID'') (corrective_actions s')
       = map (\<lambda>k. Some (PyStr (''CA'' @ zero_padded 3 k))) [Suc 0..<Suc (0 + length ops)]"
    using run_add_corrective_actions[OF a[THEN conjunct1], of s 0] by (auto simp del: upt_Suc)
  then
  show "\<exists>s'. run_ops ops s = Inr (replicate (length ops) PyNone, s')
        \<and> map (\<lambda>r. map_of r ''ID'') (corrective_actions s')
            = map (\<lambda>k. Some (PyStr (''CA'' @ zero_padded 3 k))) [1..<Suc (length ops)]"
    by (auto simp del: upt_Suc)
next
  assume "k \<le> 999" then show "length (zero_padded 3 k) = 3"
    using zero_padded_width[of k] by blast
next
  assume "999 < k" then show "zero_padded 3 k = dec_str k"
    using zero_padded_width[of k] by blast
next
  assume "999 < k" then show "4 \<le> length (dec_str k)"
    using zero_padded_width[of k] by blast
next
  show "list_all is_digit (zero_padded 3 k)"
    by (simp add: list_all_iff zero_padded_digits)
next
  show "dec_value (zero_padded 3 k) = k" by (rule dec_value_zero_padded)
qed

theorem sequential_ids_witness:
  "map_sum id fst
     (run_ops [add_audit_finding 4300 (PyStr ''AE001'') (PyStr ''Major'') (PyStr ''x'') (PyStr ''High'')
                 (PyStr '''') (PyStr '''') PyNone PyNone,
               add_audit_finding 4300 (PyStr ''AE001'') (PyStr ''Minor'') (PyStr ''y'') (PyStr ''Low'')
                 (PyStr '''') (PyStr '''') PyNone PyNone]
        initial_state)
   = Inr [PyStr ''F001'', PyStr ''F002'']
 \<and> map_sum id (\<lambda>p. map (\<lambda>r. map_of r ''ID'') (audit_engagements (snd p)))
     (run_ops [add_audit_engagement 4300 (PyStr ''a'') (PyStr ''b'') (PyStr ''IT'') (PyStr ''c'')
                 (PyStr ''d'') (PyDate 739000) (PyDate 739030) PyNone PyNone,
               add_audit_engagement 4300 (PyStr ''e'') (PyStr ''f'') (PyStr ''IT'') (PyStr ''g'')
                 (PyStr ''h'') (PyDate 739001) (PyDate 739031) PyNone PyNone]
        initial_state)
   = Inr [Some (PyStr ''AE001''), Some (PyStr ''AE002'')]
 \<and> map_sum id (\<lambda>p. map (\<lambda>r. map_of r ''ID'') (corrective_actions (snd p)))
     (run_ops [add_corrective_action 4300 (PyStr ''F001'') (PyStr ''Ann'') (PyStr ''Fix'')
                 (PyDate 739014) PyNone PyNone]
        initial_state)
   = Inr [Some (PyStr ''CA001'')]
 \<and> length (zero_padded 3 7) = 3
 \<and> zero_padded 3 1000 = ''1000''"
proof -
  note t = sequential_ids[where max_str_digits = 4300]
  let ?f = "[add_audit_finding 4300 (PyStr ''AE001'') (PyStr ''Major'') (PyStr ''x'') (PyStr ''High'')
                 (PyStr '''') (PyStr '''') PyNone PyNone,
               add_audit_finding 4300 (PyStr ''AE001'') (PyStr ''Minor'') (PyStr ''y'') (PyStr ''Low'')
                 (PyStr '''') (PyStr '''') PyNone PyNone]"
  let ?e = "[add_audit_engagement 4300 (PyStr ''a'') (PyStr ''b'') (PyStr ''IT'') (PyStr ''c'')
                 (PyStr ''d'') (PyDate 739000) (PyDate 739030) PyNone PyNone,
               add_audit_engagement 4300 (PyStr ''e'') (PyStr ''f'') (PyStr ''IT'') (PyStr ''g'')
                 (PyStr ''h'') (PyDate 739001) (PyDate 739031) PyNone PyNone]"
  let ?c = "[add_corrective_action 4300 (PyStr ''F001'') (PyStr ''Ann'') (PyStr ''Fix'')
                 (PyDate 739014) PyNone PyNone]"
  have z: "zero_padded 3 (Suc 0) = ''001''" "zero_padded 3 2 = ''002''" "dec_str 1000 = ''1000''"
    by code_simp+
  have wl: "within_limit 4300 (length (dec_str (Suc 0)))" "within_limit 4300 (length (dec_str (Suc (Suc 0))))"
    by code_simp+
  have u2: "[1..<Suc (length ?f)] = [Suc 0, 2]" "[1..<Suc (length ?e)] = [Suc 0, 2]"
    "[1..<Suc (length ?c)] = [Suc 0]"
    by (simp_all add: upt_rec)
  have hf: "(\<forall>op\<in>set ?f. \<exists>a1 a2 a3 a4 a5 a6 a7 a8. op = add_audit_finding 4300 a1 a2 a3 a4 a5 a6 a7 a8)
     \<and> audit_findings initial_state = []
     \<and> within_limit 4300 (length (dec_str (length ?f)))"
    using wl by (simp add: initial_state_def) blast
  from t[where ops = ?f and s = initial_state, THEN conjunct2, THEN conjunct1, rule_format, OF hf]
  obtain s1 where "run_ops ?f initial_state
      = Inr (map (\<lambda>k. PyStr (''F'' @ zero_padded 3 k)) [1..<Suc (length ?f)], s1)" by blast
  then have 1: "map_sum id fst (run_ops ?f initial_state) = Inr [PyStr ''F001'', PyStr ''F002'']"
    unfolding u2 by (simp add: z)
  have he: "(\<forall>op\<in>set ?e. \<exists>a1 a2 a3 a4 a5 a6 a7 a8 a9. op = add_audit_engagement 4300 a1 a2 a3 a4 a5 a6 a7 a8 a9)
     \<and> audit_engagements initial_state = []
     \<and> within_limit 4300 (length (dec_str (length ?e)))"
    using wl by (simp add: initial_state_def) blast
  from t[where ops = ?e and s = initial_state, THEN conjunct1, rule_format, OF he]
  obtain s2 where "run_ops ?e initial_state = Inr (replicate (length ?e) PyNone, s2)"
    "map (\<lambda>r. map_of r ''ID'') (audit_engagements s2)
       = map (\<lambda>k. Some (PyStr (''AE'' @ zero_padded 3 k))) [1..<Suc (length ?e)]" by blast
  then have 2: "map_sum id (\<lambda>p. map (\<lambda>r. map_of r ''ID'') (audit_engagements (snd p)))
     (run_ops ?e initial_state) = Inr [Some (PyStr ''AE001''), Some (PyStr ''AE002'')]"
    unfolding u2 by (simp add: z)
  have hc: "(\<forall>op\<in>set ?c. \<exists>a1 a2 a3 a4 a5 a6. op = add_corrective_action 4300 a1 a2 a3 a4 a5 a6)
     \<and> corrective_actions initial_state = []
     \<and> within_limit 4300 (length (dec_str (length ?c)))"
    using wl by (simp add: initial_state_def) blast
  from t[where ops = ?c and s = initial_state, THEN conjunct2, THEN conjunct2, THEN conjunct1, rule_format, OF hc]
  obtain s3 where "run_ops ?c initial_state = Inr (replicate (length ?c) PyNone, s3)"
    "map (\<lambda>r. map_of r ''ID'') (corrective_actions s3)
       = map (\<lambda>k. Some (PyStr (''CA'' @ zero_padded 3 k))) [1..<Suc (length ?c)]" by blast
  then have 3: "map_sum id (\<lambda>p. map (\<lambda>r. map_of r ''ID'') (corrective_actions (snd p)))
     (run_ops ?c initial_state) = Inr [Some (PyStr ''CA001'')]"
    unfolding u2 by (simp add: z)
  have 4: "length (zero_padded 3 7) = 3"
    by (rule t[where ops = ?f and s = initial_state and k = 7, THEN conjunct2, THEN conjunct2, THEN conjunct2,
          THEN conjunct1, rule_format]) simp
  have "zero_padded 3 1000 = dec_str 1000"
    using t[where ops = ?f and s = initial_state and k = 1000, THEN conjunct2, THEN conjunct2, THEN conjunct2,
          THEN conjunct2, THEN conjunct1] by simp
  then have 5: "zero_padded 3 1000 = ''1000''" by (simp only: z)
  from 1 2 3 4 5 show ?thesis by (intro conjI)
qed


section \<open>The percentage of closed findings\<close>

lemma round_half_even_error: "\<bar>of_int (round_half_even x) - x\<bar> \<le> 1 / 2"
proof -
  have "of_int \<lfloor>x\<rfloor> \<le> x" "x < of_int \<lfloor>x\<rfloor> + 1" by linarith+
  then show ?thesis by (auto simp: round_half_even_def Let_def)
qed

lemma round_half_even_nonneg: "0 \<le> x \<Longrightarrow> 0 \<le> round_half_even x"
  by (auto simp: round_half_even_def Let_def)

lemma binary_exponent_le:
  assumes "0 < q"
  shows "2 powi (binary_exponent q) \<le> q"
proof -
  obtain a b where ab: "quotient_of q = (a, b)" by (cases "quotient_of q")
  then have q: "q = of_int a / of_int b" and b: "0 < b"
    using quotient_of_div quotient_of_denom_pos by auto
  with assms have a: "0 < a" by (simp add: zero_less_divide_iff)
  let ?k = "bitlen a - bitlen b"
  show ?thesis
  proof (cases "2 powi ?k \<le> q")
    case True
    then show ?thesis by (simp add: binary_exponent_def ab)
  next
    case False
    then have e: "binary_exponent q = ?k - 1" by (simp add: binary_exponent_def ab)
    from bitlen_bounds[OF a] have la: "(2::int) ^ nat (bitlen a - 1) \<le> a" by simp
    from bitlen_bounds[OF b] have lb: "b < (2::int) ^ nat (bitlen b)" by simp
    have pa: "1 \<le> bitlen a" using a by (simp add: bitlen_alt_def)
    have pb: "0 \<le> bitlen b" by (rule bitlen_nonneg)
    have "(2::rat) powi (bitlen a - 1) = of_int (2 ^ nat (bitlen a - 1))"
      using pa by (simp add: power_int_def)
    also have "\<dots> \<le> of_int a" using la by (simp only: of_int_le_iff)
    finally have A: "(2::rat) powi (bitlen a - 1) \<le> of_int a" .
    have "b \<le> 2 ^ nat (bitlen b)" using lb by simp
    then have "(of_int b :: rat) \<le> of_int (2 ^ nat (bitlen b))" by (simp only: of_int_le_iff)
    also have "\<dots> = 2 powi (bitlen b)" using pb by (simp add: power_int_def)
    finally have B: "(of_int b :: rat) \<le> 2 powi (bitlen b)" .
    have "(2::rat) powi (?k - 1) = 2 powi (bitlen a - 1) / 2 powi (bitlen b)"
      by (simp add: power_int_diff)
    also have "\<dots> \<le> of_int a / 2 powi (bitlen b)"
      using A by (simp add: divide_right_mono)
    also have "\<dots> \<le> of_int a / of_int b"
      using B a b by (intro divide_left_mono) simp_all
    finally show ?thesis using e q by simp
  qed
qed

lemma to_double_error:
  assumes "0 < q"
  shows "\<bar>to_double q - q\<bar> \<le> q / 2 ^ 53"
proof -
  let ?e = "binary_exponent q"
  let ?u = "(2::rat) powi (?e - 52)"
  let ?m = "round_half_even (q / ?u)"
  have u: "0 < ?u" by simp
  have td: "to_double q = of_int ?m * ?u" using assms by (simp add: to_double_def Let_def)
  have "\<bar>of_int ?m * ?u - q\<bar> = \<bar>of_int ?m - q / ?u\<bar> * ?u"
  proof -
    have "of_int ?m * ?u - q = (of_int ?m - q / ?u) * ?u" using u by (simp add: field_simps)
    then show ?thesis using u by (simp add: abs_mult)
  qed
  also have "\<dots> \<le> (1 / 2) * ?u"
    using round_half_even_error[of "q / ?u"] u by (intro mult_right_mono) simp_all
  also have "\<dots> = 2 powi ?e / 2 ^ 53"
  proof -
    have "(2::rat) powi (?e - 52) = 2 powi ?e / 2 powi 52" by (simp add: power_int_diff)
    then show ?thesis by simp
  qed
  also have "\<dots> \<le> q / 2 ^ 53" using binary_exponent_le[OF assms] by (simp add: divide_right_mono)
  finally show ?thesis using td by simp
qed

lemma to_double_zero [simp]: "to_double 0 = 0"
  by (simp add: to_double_def)

lemma percent_error:
  assumes "0 < q"
  shows "\<bar>to_double (to_double q * 100) - q * 100\<bar> \<le> q * 100 / 2 ^ 51"
proof -
  let ?d = "to_double q"
  from to_double_error[OF assms] have d1: "\<bar>?d - q\<bar> \<le> q / 2 ^ 53" .
  then have dlow: "q - q / 2 ^ 53 \<le> ?d" and dup: "?d \<le> q + q / 2 ^ 53" by linarith+
  have "0 < q - q / 2 ^ 53" using assms by (simp add: field_simps)
  with dlow have dpos: "0 < ?d * 100" by simp
  from to_double_error[OF dpos] have d2: "\<bar>to_double (?d * 100) - ?d * 100\<bar> \<le> ?d * 100 / 2 ^ 53" .
  have "to_double (?d * 100) - q * 100 = (to_double (?d * 100) - ?d * 100) + (?d - q) * 100"
    by simp
  then have "\<bar>to_double (?d * 100) - q * 100\<bar>
             \<le> \<bar>to_double (?d * 100) - ?d * 100\<bar> + \<bar>(?d - q) * 100\<bar>"
    by (simp only: abs_triangle_ineq)
  also have "\<bar>(?d - q) * 100\<bar> = \<bar>?d - q\<bar> * 100"
    by (subst abs_mult) simp
  finally have "\<bar>to_double (?d * 100) - q * 100\<bar>
             \<le> \<bar>to_double (?d * 100) - ?d * 100\<bar> + \<bar>?d - q\<bar> * 100" .
  also have "\<dots> \<le> ?d * 100 / 2 ^ 53 + q / 2 ^ 53 * 100"
    using d1 d2 by (intro add_mono mult_right_mono) simp_all
  also have "\<dots> \<le> (q + q / 2 ^ 53) * 100 / 2 ^ 53 + q / 2 ^ 53 * 100"
    using dup by (simp add: divide_right_mono)
  also have "\<dots> \<le> q * 100 / 2 ^ 51" using assms by (simp add: field_simps)
  finally show ?thesis .
qed

lemma count_status_filter:
  "\<forall>r\<in>set store. map_of r ''Status'' \<noteq> None \<Longrightarrow>
   count_status store v = Inr (length (filter (\<lambda>r. map_of r ''Status'' = Some (PyStr v)) store))"
  by (induction store) (auto simp: getitem_def)

lemma closed_count_le: "closed_count store \<le> length store"
  by (simp add: closed_count_def)

lemma percent_accuracy:
  fixes c t :: nat
  assumes "c \<le> t" "0 < t"
  shows "\<bar>to_double (to_double (of_nat c / of_nat t) * 100) - of_nat c / of_nat t * 100\<bar>
         \<le> of_nat c / of_nat t * 100 / 2 ^ 51"
proof (cases "c = 0")
  case True
  then show ?thesis by simp
next
  case False
  then have "0 < (of_nat c / of_nat t :: rat)" using assms by simp
  from percent_error[OF this] show ?thesis .
qed

lemma shown_tenth_nearest:
  fixes c t :: nat and p :: rat
  assumes ct: "c \<le> t" "0 < t" and t: "t \<le> 2 ^ 40"
    and p: "\<bar>p - of_nat c / of_nat t * 100\<bar> \<le> of_nat c / of_nat t * 100 / 2 ^ 51"
  shows "\<bar>of_int (round_half_even (p * 10)) / 10 - of_nat c / of_nat t * 100\<bar> \<le> (1 / 20 :: rat)"
proof (rule ccontr)
  let ?x = "(of_nat c / of_nat t * 100 :: rat)"
  let ?T = "round_half_even (p * 10)"
  let ?N = "2 * int t * ?T - 2000 * int c"
  assume "\<not> ?thesis"
  then have far: "1 / 20 < \<bar>of_int ?T / 10 - ?x\<bar>" by simp
  have tpos: "(0::rat) < of_nat t" using ct by simp
  have eq: "of_int ?T / 10 - ?x = of_int ?N / (20 * of_nat t)"
    using tpos by (simp add: field_simps)
  have "1 / 20 < \<bar>(of_int ?N :: rat)\<bar> / (20 * of_nat t)"
    using far tpos unfolding eq by (simp add: abs_divide)
  then have "(of_nat t :: rat) < \<bar>of_int ?N\<bar>" using tpos by (simp add: field_simps)
  then have "(of_int (int t) :: rat) < of_int \<bar>?N\<bar>" by simp
  then have "int t < \<bar>?N\<bar>" by (simp only: of_int_less_iff)
  then have "int t + 1 \<le> \<bar>?N\<bar>" by simp
  then have "(of_int (int t + 1) :: rat) \<le> of_int \<bar>?N\<bar>" by (simp only: of_int_le_iff)
  then have big: "(of_nat t + 1 :: rat) \<le> \<bar>of_int ?N\<bar>" by simp
  have xle: "?x \<le> 100"
  proof -
    have "(of_nat c :: rat) \<le> of_nat t" using ct by simp
    then show ?thesis using tpos by (simp add: field_simps)
  qed
  have xge: "0 \<le> ?x" by simp
  have pe: "\<bar>p - ?x\<bar> \<le> 100 / 2 ^ 51"
    using p xle by (meson divide_right_mono order_trans zero_le_numeral zero_le_power)
  have split: "of_int ?T - ?x * 10 = (of_int ?T - p * 10) + (p - ?x) * 10"
    by (simp add: algebra_simps)
  have "\<bar>of_int ?T - ?x * 10\<bar> \<le> \<bar>of_int ?T - p * 10\<bar> + \<bar>(p - ?x) * 10\<bar>"
    unfolding split by (rule abs_triangle_ineq)
  also have "\<bar>(p - ?x) * 10\<bar> = \<bar>p - ?x\<bar> * 10" by (subst abs_mult) simp
  also have "\<bar>of_int ?T - p * 10\<bar> + \<bar>p - ?x\<bar> * 10 \<le> 1 / 2 + 100 / 2 ^ 51 * 10"
    using round_half_even_error[of "p * 10"] pe by (intro add_mono mult_right_mono) simp_all
  finally have near: "\<bar>of_int ?T - ?x * 10\<bar> \<le> 1 / 2 + 100 / 2 ^ 51 * 10" .
  have "of_int ?T - ?x * 10 = of_int ?N / (2 * of_nat t)"
    using tpos by (simp add: field_simps)
  with near have "\<bar>(of_int ?N :: rat)\<bar> / (2 * of_nat t) \<le> 1 / 2 + 100 / 2 ^ 51 * 10"
    using tpos by (simp add: abs_divide)
  then have "\<bar>(of_int ?N :: rat)\<bar> \<le> (1 / 2 + 100 / 2 ^ 51 * 10) * (2 * of_nat t)"
    using tpos by (simp add: pos_divide_le_eq)
  with big have "(of_nat t + 1 :: rat) \<le> (1 / 2 + 100 / 2 ^ 51 * 10) * (2 * of_nat t)"
    by (rule order_trans)
  also have "\<dots> = of_nat t + 2000 / 2 ^ 51 * of_nat t" by (simp add: algebra_simps)
  finally have one: "(1 :: rat) \<le> 2000 / 2 ^ 51 * of_nat t" by simp
  have "(of_nat t :: rat) \<le> of_nat (2 ^ 40)" using t by (simp only: of_nat_le_iff)
  then have "(of_nat t :: rat) \<le> 2 ^ 40" by simp
  then have "2000 / 2 ^ 51 * (of_nat t :: rat) \<le> 2000 / 2 ^ 51 * 2 ^ 40"
    by (intro mult_left_mono) simp_all
  with one have "(1 :: rat) \<le> 2000 / 2 ^ 51 * 2 ^ 40" by (rule order_trans)
  then show False by simp
qed

lemma percent_closed_eval:
  assumes "\<forall>f\<in>set (audit_findings s). map_of f ''Status'' \<noteq> None"
  shows "percent_closed s
         = Inr (if audit_findings s = [] then 0
                else to_double (to_double (of_nat (closed_count (audit_findings s))
                                           / of_nat (length (audit_findings s))) * 100))"
  using count_status_filter[OF assms, of "''Closed''"]
  by (simp add: percent_closed_def closed_findings_def total_findings_def closed_count_def)

lemma format_zero: "format_1f 0 = ''0.0''"
  by code_simp

lemma format_half: "format_1f (to_double (to_double (1 / 2) * 100)) = ''50.0''"
  by code_simp

text \<open>
  Claim C8. On a store of findings, the dashboard's percentage of closed findings is 0
  when the store is empty and otherwise the floating-point value of
  \<^verbatim>\<open>closed / total * 100\<close>, where \<open>closed\<close> counts the findings whose status is
  ``Closed''. That value is within a relative error of \<open>2\<^sup>-\<^sup>5\<^sup>1\<close> of the exact
  percentage, and the metric shows it with one digit after the point: for up to
  \<open>2\<^sup>4\<^sup>0\<close> findings the number shown is within 0.05 of the exact percentage. The
  metric reads \<open>0.0%\<close> for the empty store and \<open>50.0%\<close> when one of two findings is
  closed.
\<close>

theorem percent_closed_reported:
  assumes "\<forall>f\<in>set (audit_findings s). map_of f ''Status'' \<noteq> None"
  shows "\<exists>p. percent_closed s = Inr p
           \<and> percent_closed_metric s = Inr (format_1f p @ ''%'')
           \<and> (audit_findings s = [] \<longrightarrow> p = 0 \<and> percent_closed_metric s = Inr ''0.0%'')
           \<and> (audit_findings s \<noteq> [] \<longrightarrow>
                p = to_double (to_double (of_nat (closed_count (audit_findings s))
                                          / of_nat (length (audit_findings s))) * 100)
                \<and> \<bar>p - of_nat (closed_count (audit_findings s))
                         / of_nat (length (audit_findings s)) * 100\<bar>
                    \<le> of_nat (closed_count (audit_findings s))
                         / of_nat (length (audit_findings s)) * 100 / 2 ^ 51
                \<and> (length (audit_findings s) \<le> 2 ^ 40 \<longrightarrow>
                      \<bar>of_int (round_half_even (p * 10)) / 10
                        - of_nat (closed_count (audit_findings s))
                          / of_nat (length (audit_findings s)) * 100\<bar> \<le> (1 / 20 :: rat)))
           \<and> (length (audit_findings s) = 2 \<and> closed_count (audit_findings s) = 1 \<longrightarrow>
                percent_closed_metric s = Inr ''50.0%'')"
proof (cases "audit_findings s = []")
  case True
  with percent_closed_eval[OF assms] show ?thesis
    by (simp add: percent_closed_metric_def format_zero)
next
  case False
  let ?c = "closed_count (audit_findings s)"
  let ?t = "length (audit_findings s)"
  let ?p = "to_double (to_double (of_nat ?c / of_nat ?t) * 100)"
  have ct: "?c \<le> ?t" "0 < ?t" using False by (simp_all add: closed_count_le)
  have p: "percent_closed s = Inr ?p" using percent_closed_eval[OF assms] False by simp
  then have m: "percent_closed_metric s = Inr (format_1f ?p @ ''%'')"
    by (simp add: percent_closed_metric_def)
  note acc = percent_accuracy[OF ct]
  have near: "?t \<le> 2 ^ 40 \<longrightarrow>
       \<bar>of_int (round_half_even (?p * 10)) / 10 - of_nat ?c / of_nat ?t * 100\<bar> \<le> (1 / 20 :: rat)"
    using shown_tenth_nearest[OF ct _ acc] by blast
  have half: "?t = 2 \<and> ?c = 1 \<longrightarrow> percent_closed_metric s = Inr ''50.0%''"
  proof
    assume "?t = 2 \<and> ?c = 1"
    then have "?p = to_double (to_double (1 / 2) * 100)" by simp
    with m show "percent_closed_metric s = Inr ''50.0%''" by (simp add: format_half)
  qed
  show ?thesis
    apply (rule exI[of _ ?p])
    using p m acc near half False by (intro conjI impI) simp_all
qed

theorem percent_closed_reported_witness:
  "list_all (\<lambda>f. map_of f ''Status'' \<noteq> None)
     [[(''ID'', PyStr ''F001''), (''Status'', PyStr ''Open'')],
      [(''ID'', PyStr ''F002''), (''Status'', PyStr ''Closed'')],
      [(''ID'', PyStr ''F003''), (''Status'', PyStr ''Open'')]]
   \<and> percent_closed_metric
       \<lparr>audit_engagements = [],
        audit_findings = [[(''ID'', PyStr ''F001''), (''Status'', PyStr ''Open'')],
                          [(''ID'', PyStr ''F002''), (''Status'', PyStr ''Closed'')],
                          [(''ID'', PyStr ''F003''), (''Status'', PyStr ''Open'')]],
        corrective_actions = []\<rparr> = Inr ''33.3%''
   \<and> percent_closed_metric
       \<lparr>audit_engagements = [],
        audit_findings = [[(''ID'', PyStr ''F001''), (''Status'', PyStr ''Closed'')],
                          [(''ID'', PyStr ''F002''), (''Status'', PyStr ''Open'')]],
        corrective_actions = []\<rparr> = Inr ''50.0%''
   \<and> percent_closed_metric initial_state = Inr ''0.0%''"
proof -
  let ?F = "[[(''ID'', PyStr ''F001''), (''Status'', PyStr ''Open'')],
      [(''ID'', PyStr ''F002''), (''Status'', PyStr ''Closed'')],
      [(''ID'', PyStr ''F003''), (''Status'', PyStr ''Open'')]]"
  let ?S = "\<lparr>audit_engagements = [], audit_findings = ?F, corrective_actions = []\<rparr>"
  let ?G = "[[(''ID'', PyStr ''F001''), (''Status'', PyStr ''Closed'')],
             [(''ID'', PyStr ''F002''), (''Status'', PyStr ''Open'')]]"
  let ?S2 = "\<lparr>audit_engagements = [], audit_findings = ?G, corrective_actions = []\<rparr>"
  have h: "\<forall>f\<in>set (audit_findings ?S). map_of f ''Status'' \<noteq> None" by simp
  have c: "closed_count (audit_findings ?S) = 1" "length (audit_findings ?S) = 3"
    by (simp_all add: closed_count_def)
  have f: "format_1f (to_double (to_double (1 / 3) * 100)) = ''33.3''" by code_simp
  from percent_closed_reported[OF h] obtain p where
    "percent_closed_metric ?S = Inr (format_1f p @ ''%'')"
    "audit_findings ?S \<noteq> [] \<longrightarrow>
       p = to_double (to_double (of_nat (closed_count (audit_findings ?S))
                                 / of_nat (length (audit_findings ?S))) * 100)"
    by blast
  then have 1: "percent_closed_metric ?S = Inr ''33.3%''"
    unfolding c by (simp add: f)
  have h2: "\<forall>f\<in>set (audit_findings ?S2). map_of f ''Status'' \<noteq> None" by simp
  have c2: "length (audit_findings ?S2) = 2 \<and> closed_count (audit_findings ?S2) = 1"
    by (simp add: closed_count_def)
  from percent_closed_reported[OF h2] c2
  have 2: "percent_closed_metric ?S2 = Inr ''50.0%''" by blast
  have h3: "\<forall>f\<in>set (audit_findings initial_state). map_of f ''Status'' \<noteq> None"
    by (simp add: initial_state_def)
  have "audit_findings initial_state = []" by (simp add: initial_state_def)
  with percent_closed_reported[OF h3]
  have 3: "percent_closed_metric initial_state = Inr ''0.0%''" by blast
  have 0: "list_all (\<lambda>f. map_of f ''Status'' \<noteq> None) ?F" by simp
  from 0 1 2 3 show ?thesis by (intro conjI)
qed

end
